theory Spec2Isabelle
  imports Main
begin

section \<open>JavaScript values and the runtime functions the code calls\<close>

text \<open>
  A cell of an uploaded table is an arbitrary JavaScript value (\<^verbatim>\<open>rows: any[][]\<close> in
  \<^verbatim>\<open>types.ts\<close>).  Numbers are kept abstract in the type parameter \<open>'n\<close>; a \<^verbatim>\<open>Date\<close>
  object carries its time value in milliseconds, \<open>None\<close> being the invalid date (time value
  NaN).  A hole of a sparse array reads as \<open>JUndefined\<close>.  Strings are lists of code units
  below 256.
\<close>

datatype 'n jsval =
    JUndefined
  | JNull
  | JBool bool
  | JNum 'n
  | JStr string
  | JDate "int option"
  | JArray "'n jsval list"
  | JObject "(string \<times> 'n jsval) list"

text \<open>
  \<^verbatim>\<open>String(number)\<close>, \<^verbatim>\<open>String(object)\<close>, \<^verbatim>\<open>JSON.stringify\<close> and
  \<^verbatim>\<open>Date.prototype.toISOString\<close> belong to the JavaScript runtime, not to the repository:
  they are parameters of the model.  \<^verbatim>\<open>toISOString\<close> is only given here for a valid
  time value; on the invalid date the runtime throws a \<^verbatim>\<open>RangeError\<close>, which the
  model writes out where the method is called.
\<close>

record 'n runtime =
  number_toString :: "'n \<Rightarrow> string"
  object_toString :: "'n jsval \<Rightarrow> string"
  JSON_stringify :: "'n jsval \<Rightarrow> string"
  toISOString :: "int \<Rightarrow> string"

datatype js_exception = TypeError | RangeError

fun typeof :: "'n jsval \<Rightarrow> string" where
  "typeof JUndefined = ''undefined''"
| "typeof JNull = ''object''"
| "typeof (JBool b) = ''boolean''"
| "typeof (JNum n) = ''number''"
| "typeof (JStr s) = ''string''"
| "typeof (JDate t) = ''object''"
| "typeof (JArray xs) = ''object''"
| "typeof (JObject kvs) = ''object''"

fun instanceof_Date :: "'n jsval \<Rightarrow> bool" where
  "instanceof_Date (JDate t) = True"
| "instanceof_Date v = False"

text \<open>\<^verbatim>\<open>String(v)\<close>, the ToString conversion.\<close>

fun String_of :: "'n runtime \<Rightarrow> 'n jsval \<Rightarrow> string" where
  "String_of rt JUndefined = ''undefined''"
| "String_of rt JNull = ''null''"
| "String_of rt (JBool b) = (if b then ''true'' else ''false'')"
| "String_of rt (JNum n) = number_toString rt n"
| "String_of rt (JStr s) = s"
| "String_of rt v = object_toString rt v"

text \<open>\<^verbatim>\<open>Array.prototype.join\<close>: on an array of strings, and on an array of arbitrary
  values, where \<^verbatim>\<open>undefined\<close> and \<^verbatim>\<open>null\<close> elements contribute the empty string.\<close>

fun join :: "string \<Rightarrow> string list \<Rightarrow> string" where
  "join sep [] = []"
| "join sep [x] = x"
| "join sep (x # y # ys) = x @ sep @ join sep (y # ys)"

definition join_values :: "'n runtime \<Rightarrow> string \<Rightarrow> 'n jsval list \<Rightarrow> string" where
  "join_values rt sep vs =
     join sep (map (\<lambda>v. if v = JUndefined \<or> v = JNull then [] else String_of rt v) vs)"

section \<open>The dataset (\<^verbatim>\<open>types.ts\<close>)\<close>

text \<open>
  \<^verbatim>\<open>interface FileData { headers: string[]; rows: any[][] }\<close>.  The upload component
  fills \<^verbatim>\<open>headers\<close> through the unchecked cast \<^verbatim>\<open>results.data[0] as string[]\<close>, so at
  run time a header cell is whatever the tokenizer produced; a header of the declared type
  is a \<open>JStr\<close>.
\<close>

record 'n FileData =
  headers :: "'n jsval list"
  rows :: "'n jsval list list"

section \<open>The cell sanitizer and the post-processing of tokenized rows (\<^verbatim>\<open>UploadDataset.tsx\<close>)\<close>

text \<open>
  \<^verbatim>\<open>cell instanceof Date ? cell.toISOString() :
  typeof cell === 'object' ? JSON.stringify(cell) : cell\<close>
\<close>

definition sanitizeCell :: "'n runtime \<Rightarrow> 'n jsval \<Rightarrow> js_exception + 'n jsval" where
  "sanitizeCell rt cell =
     (if instanceof_Date cell then
        (case cell of
           JDate (Some t) \<Rightarrow> Inr (JStr (toISOString rt t))
         | _ \<Rightarrow> Inl RangeError)
      else if typeof cell = ''object'' then Inr (JStr (JSON_stringify rt cell))
      else Inr cell)"

text \<open>\<^verbatim>\<open>xs.map(f)\<close> where \<open>f\<close> may throw: the first exception, left to right, ends the map.\<close>

fun map_throwing :: "('a \<Rightarrow> 'e + 'b) \<Rightarrow> 'a list \<Rightarrow> 'e + 'b list" where
  "map_throwing f [] = Inr []"
| "map_throwing f (x # xs) =
     (case f x of
        Inl e \<Rightarrow> Inl e
      | Inr y \<Rightarrow> (case map_throwing f xs of Inl e \<Rightarrow> Inl e | Inr ys \<Rightarrow> Inr (y # ys)))"

text \<open>\<^verbatim>\<open>row.some(cell => cell !== null && cell !== undefined && cell !== '')\<close>\<close>

fun some :: "('a \<Rightarrow> bool) \<Rightarrow> 'a list \<Rightarrow> bool" where
  "some p [] = False"
| "some p (x # xs) = (if p x then True else some p xs)"

definition nonEmptyCell :: "'n jsval \<Rightarrow> bool" where
  "nonEmptyCell cell = (cell \<noteq> JNull \<and> cell \<noteq> JUndefined \<and> cell \<noteq> JStr [])"

definition filteredRows :: "'n jsval list list \<Rightarrow> 'n jsval list list" where
  "filteredRows rs = filter (\<lambda>row. some nonEmptyCell row) rs"

definition sanitizedRows :: "'n runtime \<Rightarrow> 'n jsval list list \<Rightarrow> js_exception + 'n jsval list list" where
  "sanitizedRows rt rs = map_throwing (\<lambda>row. map_throwing (sanitizeCell rt) row) (filteredRows rs)"

text \<open>
  The body shared by the \<^verbatim>\<open>complete\<close> callback of the CSV path (lines 28--53) and by the
  spreadsheet path (lines 71--96), on the tokenized array of arrays \<open>data\<close>.  On an empty
  \<open>data\<close>, \<^verbatim>\<open>data[0]\<close> is \<^verbatim>\<open>undefined\<close> and \<^verbatim>\<open>headers.length\<close> in the call of
  \<^verbatim>\<open>setFileStats\<close> throws a \<^verbatim>\<open>TypeError\<close> before \<^verbatim>\<open>onFileUpload\<close> is reached.
\<close>

definition toFileData :: "'n runtime \<Rightarrow> 'n jsval list list \<Rightarrow> js_exception + 'n FileData" where
  "toFileData rt data =
     (case sanitizedRows rt (drop 1 data) of
        Inl e \<Rightarrow> Inl e
      | Inr rs \<Rightarrow>
          (case data of
             [] \<Rightarrow> Inl TypeError
           | hs # _ \<Rightarrow> Inr \<lparr>headers = hs, rows = rs\<rparr>))"

section \<open>The CSV encoder (\<^verbatim>\<open>convertToCSVLocal\<close> in \<^verbatim>\<open>api.ts\<close>)\<close>

definition comma :: char where "comma = CHR '',''"
definition dquote :: char where "dquote = CHR 0x22"
definition newline :: char where "newline = CHR 0x0A"
definition carriage_return :: char where "carriage_return = CHR 0x0D"

text \<open>\<^verbatim>\<open>s.includes(c)\<close> for a one-character needle.\<close>

fun str_includes :: "string \<Rightarrow> char \<Rightarrow> bool" where
  "str_includes [] c = False"
| "str_includes (x # xs) c = (if x = c then True else str_includes xs c)"

text \<open>\<^verbatim>\<open>s.replace(/"/g, '""')\<close>\<close>

fun replace_quotes :: "string \<Rightarrow> string" where
  "replace_quotes [] = []"
| "replace_quotes (c # cs) = (if c = dquote then dquote # dquote # replace_quotes cs else c # replace_quotes cs)"

text \<open>The callback of the inner \<^verbatim>\<open>row.map\<close> (lines 200--213).\<close>

definition encodeCell :: "'n runtime \<Rightarrow> 'n jsval \<Rightarrow> string" where
  "encodeCell rt cell =
     (if cell = JNull \<or> cell = JUndefined then []
      else
        let cellStr = (if typeof cell = ''object'' then JSON_stringify rt cell else String_of rt cell)
        in if str_includes cellStr comma \<or> str_includes cellStr dquote
           then [dquote] @ replace_quotes cellStr @ [dquote]
           else cellStr)"

definition convertToCSVLocal :: "'n runtime \<Rightarrow> 'n FileData \<Rightarrow> string" where
  "convertToCSVLocal rt data =
     (let headerRow = join_values rt [comma] (headers data);
          dataRows = map (\<lambda>row. join [comma] (map (encodeCell rt) row)) (rows data)
      in join [newline] (headerRow # dataRows))"

section \<open>The analysis request (\<^verbatim>\<open>analyzeData\<close> in \<^verbatim>\<open>api.ts\<close>)\<close>

text \<open>
  Every \<^verbatim>\<open>new Error(...)\<close> of \<^verbatim>\<open>analyzeData\<close> is one constructor, named after the
  specification's taxonomy where it has a name for it; \<open>message\<close> gives the text the
  source throws.  \<open>ProbeFailed\<close> is the error of line 94, \<open>UnexpectedError\<close> the one of
  line 181.  \<open>UnknownFailure\<close> carries the status, \<open>None\<close> where the source prints
  \<^verbatim>\<open>'unknown status'\<close>.
\<close>

datatype api_error =
    MissingCredential
  | MissingQuery
  | InvalidDataset
  | ProbeFailed
  | EmptyResponse
  | BackendUnreachable
  | Timeout
  | InvalidRequest
  | InvalidCredential
  | AccessDenied
  | EndpointNotFound
  | RateLimited
  | PayloadTooLarge
  | ServerError
  | ServiceUnavailable
  | ServerMessage string
  | UnknownFailure "nat option"
  | UnexpectedError

text \<open>The decimal text of a natural number, as \<^verbatim>\<open>String\<close> and a template literal print it.\<close>

definition digit :: "nat \<Rightarrow> char" where
  "digit n = ''0123456789'' ! n"

function decimal :: "nat \<Rightarrow> string" where
  "decimal n = (if n < 10 then [digit n] else decimal (n div 10) @ [digit (n mod 10)])"
  by pat_completeness auto
termination
  by (relation "measure id") auto

fun message :: "api_error \<Rightarrow> string" where
  "message MissingCredential = ''API key is required''"
| "message MissingQuery = ''Query is required''"
| "message InvalidDataset = ''Invalid or empty data file''"
| "message ProbeFailed =
     ''Cannot connect to the backend API. Please make sure the backend server is running.''"
| "message EmptyResponse = ''No data received from the API''"
| "message BackendUnreachable =
     ''Cannot connect to the API. Please check your internet connection and make sure the backend server is running.''"
| "message Timeout = ''Request timed out. Please try again.''"
| "message InvalidRequest = ''Invalid request. Please check your query and data format.''"
| "message InvalidCredential = ''Invalid API key. Please check your DeepSeek API key.''"
| "message AccessDenied = ''Access denied. Please check your API key permissions.''"
| "message EndpointNotFound =
     ''API endpoint not found. Please check if the backend server is running correctly.''"
| "message RateLimited = ''Too many requests. Please wait a moment and try again.''"
| "message PayloadTooLarge = ''Data file is too large. Please try a smaller file.''"
| "message ServerError = ''Server error. Please try again later.''"
| "message ServiceUnavailable = ''Service temporarily unavailable. Please try again later.''"
| "message (ServerMessage d) = ''API Error: '' @ d"
| "message (UnknownFailure st) =
     ''Request failed ('' @ (case st of None \<Rightarrow> ''unknown status'' | Some n \<Rightarrow> decimal n)
       @ ''). Please try again.''"
| "message UnexpectedError = ''An unexpected error occurred. Please try again.''"

text \<open>
  What axios rejects with: \<^verbatim>\<open>error.code\<close>, and \<^verbatim>\<open>error.response\<close> with its
  \<^verbatim>\<open>status\<close> and the \<^verbatim>\<open>detail\<close> field of its body, when the server answered.
\<close>

record error_response =
  status :: nat
  detail :: "string option"

record axios_error =
  err_code :: "string option"
  err_response :: "error_response option"

text \<open>
  A value thrown inside the \<^verbatim>\<open>try\<close> block: a plain \<^verbatim>\<open>Error\<close>, or an axios error, the
  values for which \<^verbatim>\<open>axios.isAxiosError\<close> holds.
\<close>

datatype thrown = PlainError api_error | AxiosError axios_error

record form_data =
  query_part :: string
  api_key_part :: string
  file_name :: string
  file_part :: string

text \<open>
  The three requests the module issues, each with the base address
  (\<^verbatim>\<open>api.defaults.baseURL\<close>) it is sent to: \<^verbatim>\<open>GET /health\<close>,
  \<^verbatim>\<open>POST /convert-to-csv\<close> and \<^verbatim>\<open>POST /analyze\<close>.
\<close>

datatype 'n request =
    GET_health string
  | POST_convert string "'n FileData"
  | POST_analyze string form_data

text \<open>
  The network and the browser are the environment of the code.  Each answer may depend on
  the requests issued so far, so that an address can fail once and answer later.
  \<open>get_health\<close> tells whether the request is fulfilled; \<open>post_convert\<close> gives the
  \<^verbatim>\<open>csv\<close> field of the response body (\<open>Inr None\<close> when the body has none);
  \<open>post_analyze\<close> gives the response body (\<open>Inr None\<close> for a missing body).
\<close>

record ('n, 'a) environment =
  get_health :: "'n request list \<Rightarrow> string \<Rightarrow> bool"
  post_convert :: "'n request list \<Rightarrow> string \<Rightarrow> 'n FileData \<Rightarrow> axios_error + string option"
  post_analyze :: "'n request list \<Rightarrow> string \<Rightarrow> form_data \<Rightarrow> axios_error + 'a option"
  navigator_onLine :: "'n request list \<Rightarrow> bool"

text \<open>
  The module's state: the base address of the axios instance, which \<^verbatim>\<open>analyzeData\<close>
  overwrites, and the requests issued so far, oldest first.
\<close>

record 'n api =
  baseURL :: string
  requests :: "'n request list"

definition primaryURL :: string where "primaryURL = ''http://localhost:8000/api''"
definition fallbackURL :: string where "fallbackURL = ''http://127.0.0.1:8000/api''"

definition initial_api :: "'n api" where
  "initial_api = \<lparr>baseURL = primaryURL, requests = []\<rparr>"

definition issue :: "'n request \<Rightarrow> 'n api \<Rightarrow> 'n api" where
  "issue r s = s\<lparr>requests := requests s @ [r]\<rparr>"

definition testBackendConnection :: "('n, 'a) environment \<Rightarrow> 'n api \<Rightarrow> bool \<times> 'n api" where
  "testBackendConnection env s =
     (get_health env (requests s) (baseURL s), issue (GET_health (baseURL s)) s)"

definition convertToCSV ::
  "'n runtime \<Rightarrow> ('n, 'a) environment \<Rightarrow> 'n FileData \<Rightarrow> 'n api \<Rightarrow> string \<times> 'n api" where
  "convertToCSV rt env data s =
     (let s' = issue (POST_convert (baseURL s) data) s
      in case post_convert env (requests s) (baseURL s) data of
           Inr (Some csv) \<Rightarrow> if csv \<noteq> [] then (csv, s') else (convertToCSVLocal rt data, s')
         | _ \<Rightarrow> (convertToCSVLocal rt data, s'))"

text \<open>\<^verbatim>\<open>String.prototype.trim\<close>, on the white space among the code units below 256.\<close>

definition is_whitespace :: "char \<Rightarrow> bool" where
  "is_whitespace c =
     (c \<in> set [CHR 0x09, CHR 0x0A, CHR 0x0B, CHR 0x0C, CHR 0x0D, CHR 0x20, CHR 0xA0])"

definition trim :: "string \<Rightarrow> string" where
  "trim s = rev (dropWhile is_whitespace (rev (dropWhile is_whitespace s)))"

text \<open>
  The third guard is \<^verbatim>\<open>!data || !data.headers || !data.rows || data.rows.length === 0\<close>;
  a null \<^verbatim>\<open>data\<close> is \<open>None\<close>, and \<open>invalid_data\<close> is the rest of the test.
  An array is an object, and every object is truthy, the empty array too.
\<close>

definition truthy_array :: "'a list \<Rightarrow> bool" where
  "truthy_array xs = True"

definition invalid_data :: "'n FileData \<Rightarrow> bool" where
  "invalid_data d = (\<not> truthy_array (headers d) \<or> \<not> truthy_array (rows d) \<or> length (rows d) = 0)"

text \<open>The connectivity test of lines 86--96, and the handler of lines 97--104.\<close>

definition probe :: "('n, 'a) environment \<Rightarrow> 'n api \<Rightarrow> (thrown + unit) \<times> 'n api" where
  "probe env s =
     (let (isConnected, s1) = testBackendConnection env s
      in if \<not> isConnected then
           let s2 = s1\<lparr>baseURL := fallbackURL\<rparr>;
               (isConnectedAlt, s3) = testBackendConnection env s2
           in if \<not> isConnectedAlt then (Inl (PlainError ProbeFailed), s3) else (Inr (), s3)
         else (Inr (), s1))"

definition catch_health :: "bool \<Rightarrow> thrown \<Rightarrow> thrown" where
  "catch_health onLine healthError =
     (case healthError of
        AxiosError e \<Rightarrow>
          if \<not> onLine \<or> err_code e = Some ''ERR_NETWORK'' then PlainError BackendUnreachable
          else healthError
      | PlainError e \<Rightarrow> healthError)"

text \<open>The handler of lines 122--182.\<close>

definition request_failed :: "error_response option \<Rightarrow> api_error" where
  "request_failed r =
     (case r of
        None \<Rightarrow> UnknownFailure None
      | Some resp \<Rightarrow> if status resp = 0 then UnknownFailure None else UnknownFailure (Some (status resp)))"

definition catch_error :: "bool \<Rightarrow> thrown \<Rightarrow> api_error" where
  "catch_error onLine error =
     (case error of
        AxiosError e \<Rightarrow>
          if \<not> onLine \<or> err_code e = Some ''ERR_NETWORK'' then BackendUnreachable
          else if err_code e = Some ''ECONNABORTED'' then Timeout
          else
            let st = map_option status (err_response e)
            in if st = Some 400 then InvalidRequest
               else if st = Some 401 then InvalidCredential
               else if st = Some 403 then AccessDenied
               else if st = Some 404 then EndpointNotFound
               else if st = Some 429 then RateLimited
               else if st = Some 413 then PayloadTooLarge
               else if st = Some 500 then ServerError
               else if st = Some 503 then ServiceUnavailable
               else
                 (case Option.bind (err_response e) detail of
                    Some d \<Rightarrow> if d \<noteq> [] then ServerMessage d else request_failed (err_response e)
                  | None \<Rightarrow> request_failed (err_response e))
      | PlainError e \<Rightarrow> UnexpectedError)"

text \<open>The multipart body of lines 76--83.\<close>

definition formData :: "string \<Rightarrow> string \<Rightarrow> string \<Rightarrow> form_data" where
  "formData query apiKey fileContent =
     \<lparr>query_part = query, api_key_part = apiKey, file_name = ''data.csv'', file_part = fileContent\<rparr>"

definition analyzeData ::
  "'n runtime \<Rightarrow> ('n, 'a) environment \<Rightarrow> string \<Rightarrow> 'n FileData option \<Rightarrow> string \<Rightarrow> 'n api
     \<Rightarrow> (api_error + 'a) \<times> 'n api" where
  "analyzeData rt env query data apiKey s =
     (if trim apiKey = [] then (Inl MissingCredential, s)
      else if trim query = [] then (Inl MissingQuery, s)
      else
        (case data of
           None \<Rightarrow> (Inl InvalidDataset, s)
         | Some d \<Rightarrow>
             (if invalid_data d then (Inl InvalidDataset, s)
              else
                (let (fileContent, s1) = convertToCSV rt env d s;
                     form = formData query apiKey fileContent;
                     (probed, s2) = probe env s1
                 in (case probed of
                       Inl healthError \<Rightarrow>
                         (let onLine = navigator_onLine env (requests s2)
                          in (Inl (catch_error onLine (catch_health onLine healthError)), s2))
                     | Inr _ \<Rightarrow>
                         (let s3 = issue (POST_analyze (baseURL s2) form) s2;
                              onLine = navigator_onLine env (requests s3)
                          in (case post_analyze env (requests s2) (baseURL s2) form of
                                Inl e \<Rightarrow> (Inl (catch_error onLine (AxiosError e)), s3)
                              | Inr None \<Rightarrow> (Inl (catch_error onLine (PlainError EmptyResponse)), s3)
                              | Inr (Some response) \<Rightarrow> (Inr response, s3))))))))"

section \<open>The CSV path of the upload\<close>

text \<open>
  What the upload ends with when it gives no dataset: the decoder rejects the text, an
  exception escapes, or the component shows an error message.
\<close>

datatype upload_error = DecodeError | Uncaught js_exception | ErrorMessage string

text \<open>The states of the tokenizer below.\<close>

datatype tok_mode = FieldStart | InField | InQuoted | AfterQuote

text \<open>
  Modelled from the spec: the delimited-text decoder (PapaParse, imported by
  \<^verbatim>\<open>UploadDataset.tsx\<close>, is not part of the sources).  The specification asks for the rows
  ``exactly as emitted by a standard RFC-4180-compatible tokenizer'', and for a
  \<open>DecodeError\<close> on malformed or unterminated quoting.  Fields are separated by commas,
  records by a line feed or by a carriage return and a line feed; a field that starts with
  a double quote runs to its closing quote, a doubled quote inside standing for one quote.
  An empty text has no record; otherwise the text after the last line break is a record,
  also when it is empty.
\<close>

fun tokenize_from ::
  "tok_mode \<Rightarrow> string \<Rightarrow> string list \<Rightarrow> string list list \<Rightarrow> string \<Rightarrow> upload_error + string list list" where
  "tokenize_from m f r rs [] =
     (if m = InQuoted then Inl DecodeError else Inr (rev (rev (rev f # r) # rs)))"
| "tokenize_from m f r rs (c # cs) =
     (if m = InQuoted then
        (if c = dquote then tokenize_from AfterQuote f r rs cs
         else tokenize_from InQuoted (c # f) r rs cs)
      else if m = AfterQuote \<and> c = dquote then tokenize_from InQuoted (c # f) r rs cs
      else if m = FieldStart \<and> c = dquote then tokenize_from InQuoted [] r rs cs
      else if c = comma then tokenize_from FieldStart [] (rev f # r) rs cs
      else if c = newline then tokenize_from FieldStart [] [] (rev (rev f # r) # rs) cs
      else if c = carriage_return \<and> take 1 cs = [newline] then tokenize_from m f r rs cs
      else if m = AfterQuote then Inl DecodeError
      else tokenize_from InField (c # f) r rs cs)"

text \<open>
  Modelled from the spec: the entry point of the same decoder, which finds no record in an
  empty text.
\<close>

definition csv_tokenize :: "string \<Rightarrow> upload_error + string list list" where
  "csv_tokenize text = (if text = [] then Inr [] else tokenize_from FieldStart [] [] [] text)"

text \<open>
  The \<^verbatim>\<open>complete\<close> callback of \<^verbatim>\<open>Papa.parse\<close> on the tokenized rows: an exception thrown
  in it is caught by nobody.
\<close>

definition processCsv :: "'n runtime \<Rightarrow> 'n jsval list list \<Rightarrow> upload_error + 'n FileData" where
  "processCsv rt data =
     (case toFileData rt data of Inl e \<Rightarrow> Inl (Uncaught e) | Inr fileData \<Rightarrow> Inr fileData)"

text \<open>
  The spreadsheet path on the array of arrays of the first sheet: an exception is caught
  by the handler of lines 99--104.
\<close>

definition processSheet :: "'n runtime \<Rightarrow> 'n jsval list list \<Rightarrow> upload_error + 'n FileData" where
  "processSheet rt jsonData =
     (case toFileData rt jsonData of
        Inl e \<Rightarrow> Inl (ErrorMessage ''Error processing Excel file. Please check the file format.'')
      | Inr fileData \<Rightarrow> Inr fileData)"

text \<open>The CSV path from the text of the file.\<close>

definition parseCsvText :: "'n runtime \<Rightarrow> string \<Rightarrow> upload_error + 'n FileData" where
  "parseCsvText rt text =
     (case csv_tokenize text of
        Inl e \<Rightarrow> Inl e
      | Inr data \<Rightarrow> processCsv rt (map (map JStr) data))"

section \<open>Sequences of calls\<close>

fun request_base :: "'n request \<Rightarrow> string" where
  "request_base (GET_health b) = b"
| "request_base (POST_convert b d) = b"
| "request_base (POST_analyze b f) = b"

text \<open>
  Calls of \<^verbatim>\<open>analyzeData\<close> one after the other on the same module state, each with its
  own arguments and its own environment; the results are dropped, only the state is kept.
\<close>

fun submit_all ::
  "'n runtime \<Rightarrow> (('n, 'a) environment \<times> string \<times> 'n FileData option \<times> string) list \<Rightarrow> 'n api \<Rightarrow> 'n api" where
  "submit_all rt [] s = s"
| "submit_all rt ((env, query, data, apiKey) # calls) s =
     submit_all rt calls (snd (analyzeData rt env query data apiKey s))"

section \<open>The specification's words\<close>

text \<open>
  Section 3: a row is all-empty when every cell in it is null, undefined or the empty
  string.
\<close>

definition all_empty :: "'n jsval list \<Rightarrow> bool" where
  "all_empty row = (\<forall>cell \<in> set row. cell = JStr [] \<or> cell = JNull \<or> cell = JUndefined)"

text \<open>
  Section 4.3: null and undefined become the empty string, an object-shaped value its JSON
  text, everything else its natural string form; a field is wrapped in double quotes, every
  quote inside doubled, if and only if it contains a comma or a quote.
\<close>

fun object_shaped :: "'n jsval \<Rightarrow> bool" where
  "object_shaped (JDate t) = True"
| "object_shaped (JArray xs) = True"
| "object_shaped (JObject kvs) = True"
| "object_shaped v = False"

definition spec_stringify :: "'n runtime \<Rightarrow> 'n jsval \<Rightarrow> string" where
  "spec_stringify rt cell =
     (if cell = JNull \<or> cell = JUndefined then []
      else if object_shaped cell then JSON_stringify rt cell
      else String_of rt cell)"

definition spec_quote :: "string \<Rightarrow> string" where
  "spec_quote field =
     (if comma \<in> set field \<or> dquote \<in> set field
      then [dquote] @ concat (map (\<lambda>c. if c = dquote then [dquote, dquote] else [c]) field) @ [dquote]
      else field)"

text \<open>Section 6: the table from HTTP status to classified error.\<close>

definition spec_status_error :: "nat \<Rightarrow> api_error option" where
  "spec_status_error n =
     (if n = 400 then Some InvalidRequest
      else if n = 401 then Some InvalidCredential
      else if n = 403 then Some AccessDenied
      else if n = 404 then Some EndpointNotFound
      else if n = 413 then Some PayloadTooLarge
      else if n = 429 then Some RateLimited
      else if n = 500 then Some ServerError
      else if n = 503 then Some ServiceUnavailable
      else None)"

text \<open>Section 8, round trip: scalar cells, and text without control characters.\<close>

fun scalar :: "'n jsval \<Rightarrow> bool" where
  "scalar (JDate t) = False"
| "scalar (JArray xs) = False"
| "scalar (JObject kvs) = False"
| "scalar v = True"

definition is_control :: "char \<Rightarrow> bool" where
  "is_control c = ((of_char c :: nat) < 32 \<or> (127 \<le> (of_char c :: nat) \<and> (of_char c :: nat) \<le> 159))"

definition no_control :: "string \<Rightarrow> bool" where
  "no_control s = (\<forall>c \<in> set s. \<not> is_control c)"

section \<open>Example inputs\<close>

text \<open>
  A runtime whose numbers are the natural numbers, printed in decimal, and whose texts
  for objects and dates are fixed; a backend that answers every request, without a conversion endpoint; a
  small dataset.
\<close>

definition example_runtime :: "nat runtime" where
  "example_runtime =
     \<lparr>number_toString = decimal,
      object_toString = (\<lambda>v. ''[object Object]''),
      JSON_stringify = (\<lambda>v. if v = JNull then ''null'' else ''{}''),
      toISOString = (\<lambda>t. ''1970-01-01T00:00:00.000Z'')\<rparr>"

definition not_found :: axios_error where
  "not_found = \<lparr>err_code = Some ''ERR_BAD_REQUEST'',
                err_response = Some \<lparr>status = 404, detail = Some ''Not Found''\<rparr>\<rparr>"

definition unauthorized :: axios_error where
  "unauthorized = \<lparr>err_code = Some ''ERR_BAD_REQUEST'',
                   err_response = Some \<lparr>status = 401, detail = None\<rparr>\<rparr>"

definition example_backend :: "(nat, string) environment" where
  "example_backend =
     \<lparr>get_health = (\<lambda>h b. True),
      post_convert = (\<lambda>h b d. Inl not_found),
      post_analyze = (\<lambda>h b f. Inr (Some ''42'')),
      navigator_onLine = (\<lambda>h. True)\<rparr>"

definition unreachable_backend :: "(nat, string) environment" where
  "unreachable_backend = example_backend\<lparr>get_health := (\<lambda>h b. False)\<rparr>"

definition offline_unauthorized :: "(nat, string) environment" where
  "offline_unauthorized =
     example_backend\<lparr>post_analyze := (\<lambda>h b f. Inl unauthorized), navigator_onLine := (\<lambda>h. False)\<rparr>"

definition rate_limiting_backend :: "(nat, string) environment" where
  "rate_limiting_backend =
     example_backend\<lparr>post_analyze := (\<lambda>h b f. Inl \<lparr>err_code = Some ''ERR_BAD_REQUEST'',
        err_response = Some \<lparr>status = 429, detail = Some ''slow down''\<rparr>\<rparr>)\<rparr>"

definition converting_backend :: "(nat, string) environment" where
  "converting_backend = example_backend\<lparr>post_convert := (\<lambda>h b d. Inr (Some ''x''))\<rparr>"

definition fallback_only :: "(nat, string) environment" where
  "fallback_only = example_backend\<lparr>get_health := (\<lambda>h b. b = fallbackURL)\<rparr>"

definition example_data :: "nat FileData" where
  "example_data =
     \<lparr>headers = [JStr ''name'', JStr ''value''],
      rows = [[JStr ''A'', JNum 1], [JStr ''B'', JNum 2]]\<rparr>"

section \<open>The cell sanitizer\<close>

lemma sanitizeCell_cases:
  "sanitizeCell rt JUndefined = Inr JUndefined"
  "sanitizeCell rt (JBool b) = Inr (JBool b)"
  "sanitizeCell rt (JNum n) = Inr (JNum n)"
  "sanitizeCell rt (JStr s) = Inr (JStr s)"
  "sanitizeCell rt (JDate (Some t)) = Inr (JStr (toISOString rt t))"
  "sanitizeCell rt (JDate None) = Inl RangeError"
  "sanitizeCell rt (JArray xs) = Inr (JStr (JSON_stringify rt (JArray xs)))"
  "sanitizeCell rt (JObject kvs) = Inr (JStr (JSON_stringify rt (JObject kvs)))"
  by (simp_all add: sanitizeCell_def)

text \<open>
  C5.  The sanitizer does not return a null cell unchanged: \<^verbatim>\<open>typeof null\<close> is
  \<^verbatim>\<open>'object'\<close>, so a null cell takes the branch of the object-shaped values and becomes
  the string that \<^verbatim>\<open>JSON.stringify(null)\<close> returns.
\<close>

theorem sanitizeCell_null:
  "sanitizeCell rt JNull = Inr (JStr (JSON_stringify rt JNull)) \<and> sanitizeCell rt JNull \<noteq> Inr JNull"
  by (simp add: sanitizeCell_def)

section \<open>The encoding of a cell\<close>

lemma str_includes_set: "str_includes s c = (c \<in> set s)"
  by (induction s) auto

lemma replace_quotes_concat:
  "replace_quotes s = concat (map (\<lambda>c. if c = dquote then [dquote, dquote] else [c]) s)"
  by (induction s) auto

lemma encodeCell_quote_stringify: "encodeCell rt cell = spec_quote (spec_stringify rt cell)"
  by (cases cell)
     (simp_all add: encodeCell_def spec_quote_def spec_stringify_def Let_def
        str_includes_set replace_quotes_concat)

text \<open>
  C7.  The encoder writes a cell as the specification says: the empty string for null and
  undefined, the JSON text of an object-shaped value, the natural string form of anything
  else, in double quotes with the inner quotes doubled exactly when the text has a comma or
  a quote.  The cell \<^verbatim>\<open>a,b"c\<close> becomes \<^verbatim>\<open>"a,b""c"\<close>, the cell \<^verbatim>\<open>plain\<close> stays as it is.
\<close>

theorem encodeCell_spec:
  \<open>encodeCell rt cell = spec_quote (spec_stringify rt cell)
   \<and> encodeCell rt (JStr ''a,b"c'') = ''"a,b""c"''
   \<and> encodeCell rt (JStr ''plain'') = ''plain''\<close>
  by (simp add: encodeCell_quote_stringify spec_quote_def spec_stringify_def comma_def dquote_def)

section \<open>The rows of an uploaded table\<close>

lemma some_list_ex: "some p xs = list_ex p xs"
  by (induction xs) auto

lemma some_nonEmpty_all_empty: "some nonEmptyCell row \<longleftrightarrow> \<not> all_empty row"
  by (auto simp: some_list_ex list_ex_iff all_empty_def nonEmptyCell_def)

lemma filteredRows_all_empty: "filteredRows rs = filter (\<lambda>row. \<not> all_empty row) rs"
  by (simp add: filteredRows_def some_nonEmpty_all_empty)

lemma map_throwing_Inr_iff:
  "map_throwing f xs = Inr ys \<longleftrightarrow> list_all2 (\<lambda>x y. f x = Inr y) xs ys"
proof (induction xs arbitrary: ys)
  case Nil
  show ?case by auto
next
  case (Cons x xs)
  show ?case
    by (cases ys) (auto simp: Cons.IH[symmetric] split: sum.splits)
qed

lemma list_all2_left: "list_all2 P xs ys \<Longrightarrow> x \<in> set xs \<Longrightarrow> \<exists>y\<in>set ys. P x y"
  by (induction rule: list_all2_induct) auto

lemma list_all2_right: "list_all2 P xs ys \<Longrightarrow> y \<in> set ys \<Longrightarrow> \<exists>x\<in>set xs. P x y"
  by (induction rule: list_all2_induct) auto

lemma sanitizeCell_keeps_nonEmpty:
  assumes "\<And>v. JSON_stringify rt v \<noteq> []" and "\<And>t. toISOString rt t \<noteq> []"
    and "sanitizeCell rt cell = Inr cell'" and "nonEmptyCell cell"
  shows "nonEmptyCell cell'"
  using assms
  by (cases cell) (auto simp: sanitizeCell_def nonEmptyCell_def split: option.splits)

lemma sanitized_row_not_all_empty:
  assumes "\<And>v. JSON_stringify rt v \<noteq> []" and "\<And>t. toISOString rt t \<noteq> []"
    and "map_throwing (sanitizeCell rt) row = Inr row'" and "\<not> all_empty row"
  shows "\<not> all_empty row'"
proof -
  from assms(4) obtain cell where c: "cell \<in> set row" "nonEmptyCell cell"
    by (auto simp: all_empty_def nonEmptyCell_def)
  from assms(3) have l: "list_all2 (\<lambda>x y. sanitizeCell rt x = Inr y) row row'"
    by (simp add: map_throwing_Inr_iff)
  from list_all2_left[OF l c(1)] obtain cell'
    where c': "cell' \<in> set row'" "sanitizeCell rt cell = Inr cell'"
    by auto
  from sanitizeCell_keeps_nonEmpty[OF assms(1,2) c'(2) c(2)] c'(1) show ?thesis
    by (auto simp: all_empty_def nonEmptyCell_def)
qed

lemma toFileData_Inr_iff:
  "toFileData rt data = Inr fd \<longleftrightarrow>
     (\<exists>hs rest. data = hs # rest \<and> headers fd = hs \<and> sanitizedRows rt rest = Inr (rows fd))"
  by (cases data; cases fd) (auto simp: toFileData_def split: sum.splits)

lemma processCsv_Inr_iff: "processCsv rt data = Inr fd \<longleftrightarrow> toFileData rt data = Inr fd"
  by (simp add: processCsv_def split: sum.splits)

lemma processSheet_Inr_iff: "processSheet rt data = Inr fd \<longleftrightarrow> toFileData rt data = Inr fd"
  by (simp add: processSheet_def split: sum.splits)

lemma sanitizedRows_Inr_iff:
  "sanitizedRows rt rs = Inr out \<longleftrightarrow>
     list_all2 (\<lambda>row row'. map_throwing (sanitizeCell rt) row = Inr row')
       (filter (\<lambda>row. \<not> all_empty row) rs) out"
  by (simp add: sanitizedRows_def map_throwing_Inr_iff filteredRows_all_empty)

text \<open>
  C8.  On both paths the rows of the resulting dataset are the data rows that are not
  all-empty, one for one and in their order, each with its cells sanitized; and no row of
  the dataset is all-empty, the texts that the runtime produces for objects and dates being
  never empty.
\<close>

theorem empty_rows_dropped:
  assumes "processCsv rt data = Inr fd \<or> processSheet rt data = Inr fd"
  shows "list_all2 (\<lambda>row row'. map_throwing (sanitizeCell rt) row = Inr row')
           (filter (\<lambda>row. \<not> all_empty row) (drop 1 data)) (rows fd)
       \<and> ((\<forall>v. JSON_stringify rt v \<noteq> []) \<and> (\<forall>t. toISOString rt t \<noteq> []) \<longrightarrow>
            (\<forall>row \<in> set (rows fd). \<not> all_empty row))"
proof -
  from assms have "toFileData rt data = Inr fd"
    by (auto simp: processCsv_Inr_iff processSheet_Inr_iff)
  then obtain hs rest where d: "data = hs # rest" "sanitizedRows rt rest = Inr (rows fd)"
    by (auto simp: toFileData_Inr_iff)
  then have l: "list_all2 (\<lambda>row row'. map_throwing (sanitizeCell rt) row = Inr row')
       (filter (\<lambda>row. \<not> all_empty row) rest) (rows fd)"
    by (simp add: sanitizedRows_Inr_iff)
  have "\<not> all_empty row'"
    if "row' \<in> set (rows fd)" and r: "\<forall>v. JSON_stringify rt v \<noteq> []" "\<forall>t. toISOString rt t \<noteq> []"
    for row'
  proof -
    from list_all2_right[OF l that(1)] obtain row
      where "row \<in> set (filter (\<lambda>row. \<not> all_empty row) rest)"
        "map_throwing (sanitizeCell rt) row = Inr row'"
      by auto
    then show ?thesis
      using sanitized_row_not_all_empty[of rt row row'] r by auto
  qed
  with l d show ?thesis by auto
qed

theorem empty_rows_dropped_witness:
  "processSheet example_runtime
     [[JStr ''name'', JStr ''when''], [JStr [], JNull], [JStr ''A'', JDate (Some 0)], [JUndefined],
      [JNull, JNum 7]]
     = Inr \<lparr>headers = [JStr ''name'', JStr ''when''],
            rows = [[JStr ''A'', JStr ''1970-01-01T00:00:00.000Z''], [JStr ''null'', JNum 7]]\<rparr>
   \<and> list_all2 (\<lambda>row row'. map_throwing (sanitizeCell example_runtime) row = Inr row')
       [[JStr ''A'', JDate (Some 0)], [JNull, JNum 7]]
       [[JStr ''A'', JStr ''1970-01-01T00:00:00.000Z''], [JStr ''null'', JNum 7]]"
proof -
  have h: "processSheet example_runtime
     [[JStr ''name'', JStr ''when''], [JStr [], JNull], [JStr ''A'', JDate (Some 0)], [JUndefined],
      [JNull, JNum 7]]
     = Inr \<lparr>headers = [JStr ''name'', JStr ''when''],
            rows = [[JStr ''A'', JStr ''1970-01-01T00:00:00.000Z''], [JStr ''null'', JNum 7]]\<rparr>"
    by (simp add: processSheet_def toFileData_def sanitizedRows_def filteredRows_def
        nonEmptyCell_def sanitizeCell_def example_runtime_def)
  from empty_rows_dropped[OF disjI2[OF h]] h
  show ?thesis by (simp add: all_empty_def)
qed

lemma map_throwing_total:
  "(\<And>x. x \<in> set xs \<Longrightarrow> \<exists>y. f x = Inr y) \<Longrightarrow> \<exists>ys. map_throwing f xs = Inr ys"
proof (induction xs)
  case Nil
  show ?case by simp
next
  case (Cons x xs)
  from Cons.prems obtain y where "f x = Inr y" by auto
  moreover from Cons obtain ys where "map_throwing f xs = Inr ys" by auto
  ultimately show ?case by simp
qed

lemma sanitizeCell_total: "cell \<noteq> JDate None \<Longrightarrow> \<exists>cell'. sanitizeCell rt cell = Inr cell'"
  by (cases cell) (auto simp: sanitizeCell_def split: option.splits)

lemma sanitizedRows_total:
  assumes "\<forall>row \<in> set rs. JDate None \<notin> set row"
  shows "\<exists>out. sanitizedRows rt rs = Inr out"
  unfolding sanitizedRows_def
proof (rule map_throwing_total)
  fix row assume "row \<in> set (filteredRows rs)"
  then have "JDate None \<notin> set row" using assms by (auto simp: filteredRows_def)
  then show "\<exists>y. map_throwing (sanitizeCell rt) row = Inr y"
    by (intro map_throwing_total sanitizeCell_total) auto
qed

text \<open>
  C10.  On both paths the headers of the resulting dataset are the first tokenized row as
  it is: no header cell goes through the sanitizer and the header row is not filtered,
  whatever its cells are.  A dataset results whenever no data row holds an invalid date.
\<close>

theorem headers_verbatim:
  "(processCsv rt (hs # rest) = Inr fd \<longrightarrow> headers fd = hs)
   \<and> (processSheet rt (hs # rest) = Inr fd \<longrightarrow> headers fd = hs)
   \<and> ((\<forall>row \<in> set rest. JDate None \<notin> set row) \<longrightarrow>
        (\<exists>fd'. processCsv rt (hs # rest) = Inr fd' \<and> processSheet rt (hs # rest) = Inr fd'
           \<and> headers fd' = hs))"
proof (intro conjI impI)
  assume "\<forall>row \<in> set rest. JDate None \<notin> set row"
  from sanitizedRows_total[OF this] obtain out where "sanitizedRows rt rest = Inr out" by blast
  then show "\<exists>fd'. processCsv rt (hs # rest) = Inr fd' \<and> processSheet rt (hs # rest) = Inr fd'
           \<and> headers fd' = hs"
    by (simp add: processCsv_def processSheet_def toFileData_def)
qed (auto simp: processCsv_Inr_iff processSheet_Inr_iff toFileData_Inr_iff)

theorem headers_verbatim_witness:
  "processCsv example_runtime [[JStr [], JNull, JUndefined], [JStr ''x'', JNum 1, JNull]]
     = Inr \<lparr>headers = [JStr [], JNull, JUndefined], rows = [[JStr ''x'', JNum 1, JStr ''null'']]\<rparr>
   \<and> processSheet example_runtime [[JDate (Some 0), JObject [], JDate None], [JStr ''x'']]
     = Inr \<lparr>headers = [JDate (Some 0), JObject [], JDate None], rows = [[JStr ''x'']]\<rparr>
   \<and> headers \<lparr>headers = [JDate (Some 0), JObject [], JDate None], rows = [[JStr ''x'' :: nat jsval]]\<rparr>
     = [JDate (Some 0), JObject [], JDate None]"
proof -
  have a: "processCsv example_runtime [[JStr [], JNull, JUndefined], [JStr ''x'', JNum 1, JNull]]
     = Inr \<lparr>headers = [JStr [], JNull, JUndefined], rows = [[JStr ''x'', JNum 1, JStr ''null'']]\<rparr>"
    by (simp add: processCsv_def toFileData_def sanitizedRows_def filteredRows_def
        nonEmptyCell_def sanitizeCell_def example_runtime_def)
  have b: "processSheet example_runtime [[JDate (Some 0), JObject [], JDate None], [JStr ''x'']]
     = Inr \<lparr>headers = [JDate (Some 0), JObject [], JDate None], rows = [[JStr ''x'']]\<rparr>"
    by (simp add: processSheet_def toFileData_def sanitizedRows_def filteredRows_def
        nonEmptyCell_def sanitizeCell_def example_runtime_def)
  from headers_verbatim[of example_runtime "[JDate (Some 0), JObject [], JDate None]" "[[JStr ''x'']]"
      "\<lparr>headers = [JDate (Some 0), JObject [], JDate None], rows = [[JStr ''x'']]\<rparr>"] a b
  show ?thesis by simp
qed


section \<open>The analysis request\<close>

lemma convertToCSV_snd: "snd (convertToCSV rt env d s) = issue (POST_convert (baseURL s) d) s"
  by (simp add: convertToCSV_def Let_def split: sum.splits option.splits)

lemma convertToCSV_fst:
  "fst (convertToCSV rt env d s) =
     (case post_convert env (requests s) (baseURL s) d of
        Inr (Some csv) \<Rightarrow> if csv = [] then convertToCSVLocal rt d else csv
      | _ \<Rightarrow> convertToCSVLocal rt d)"
  by (simp add: convertToCSV_def Let_def split: sum.splits option.splits)

lemma probe_cases:
  "probe env s =
     (if get_health env (requests s) (baseURL s)
      then (Inr (), \<lparr>baseURL = baseURL s, requests = requests s @ [GET_health (baseURL s)]\<rparr>)
      else if get_health env (requests s @ [GET_health (baseURL s)]) fallbackURL
      then (Inr (), \<lparr>baseURL = fallbackURL,
                      requests = requests s @ [GET_health (baseURL s), GET_health fallbackURL]\<rparr>)
      else (Inl (PlainError ProbeFailed),
            \<lparr>baseURL = fallbackURL,
             requests = requests s @ [GET_health (baseURL s), GET_health fallbackURL]\<rparr>))"
  by (cases s) (simp add: probe_def testBackendConnection_def issue_def Let_def)

lemma analyzeData_valid:
  assumes "trim apiKey \<noteq> []" "trim query \<noteq> []" "rows d \<noteq> []"
  shows "analyzeData rt env query (Some d) apiKey s =
     (let (fileContent, s1) = convertToCSV rt env d s;
          form = formData query apiKey fileContent;
          (probed, s2) = probe env s1
      in (case probed of
            Inl healthError \<Rightarrow>
              (let onLine = navigator_onLine env (requests s2)
               in (Inl (catch_error onLine (catch_health onLine healthError)), s2))
          | Inr _ \<Rightarrow>
              (let s3 = issue (POST_analyze (baseURL s2) form) s2;
                   onLine = navigator_onLine env (requests s3)
               in (case post_analyze env (requests s2) (baseURL s2) form of
                     Inl e \<Rightarrow> (Inl (catch_error onLine (AxiosError e)), s3)
                   | Inr None \<Rightarrow> (Inl (catch_error onLine (PlainError EmptyResponse)), s3)
                   | Inr (Some response) \<Rightarrow> (Inr response, s3)))))"
  using assms by (simp add: analyzeData_def invalid_data_def truthy_array_def)

text \<open>
  C1.  When the health request fails at the active address and then at the fallback
  address, the call issues no \<^verbatim>\<open>POST /analyze\<close>: its requests are the conversion
  request and the two health requests.  It does not fail with the error of the unreachable
  backend, though: the \<^verbatim>\<open>Error\<close> of line 94 is not an axios error, so the handler of
  line 122 replaces it by the error of line 181, ``An unexpected error occurred''.
\<close>

theorem both_probes_fail:
  assumes "trim apiKey \<noteq> []" and "trim query \<noteq> []" and "rows d \<noteq> []"
    and "\<not> get_health env (requests s @ [POST_convert (baseURL s) d]) (baseURL s)"
    and "\<not> get_health env (requests s @ [POST_convert (baseURL s) d, GET_health (baseURL s)]) fallbackURL"
  shows "fst (analyzeData rt env query (Some d) apiKey s) = Inl UnexpectedError
       \<and> requests (snd (analyzeData rt env query (Some d) apiKey s)) =
           requests s @ [POST_convert (baseURL s) d, GET_health (baseURL s), GET_health fallbackURL]"
proof -
  obtain csv s1 where c: "convertToCSV rt env d s = (csv, s1)"
    by (cases "convertToCSV rt env d s")
  then have s1: "s1 = issue (POST_convert (baseURL s) d) s"
    using convertToCSV_snd[of rt env d s] by simp
  have p: "probe env s1 = (Inl (PlainError ProbeFailed),
      \<lparr>baseURL = fallbackURL,
       requests = requests s1 @ [GET_health (baseURL s1), GET_health fallbackURL]\<rparr>)"
    using assms(4,5) by (simp add: probe_cases s1 issue_def)
  show ?thesis
    by (simp add: analyzeData_valid[OF assms(1-3)] c p catch_health_def catch_error_def)
       (simp add: s1 issue_def)
qed

theorem both_probes_fail_witness:
  "fst (analyzeData example_runtime unreachable_backend ''total?'' (Some example_data) ''sk-1'' initial_api)
     = Inl UnexpectedError
   \<and> requests (snd (analyzeData example_runtime unreachable_backend ''total?'' (Some example_data)
        ''sk-1'' initial_api))
     = [POST_convert primaryURL example_data, GET_health primaryURL, GET_health fallbackURL]"
  using both_probes_fail[of "''sk-1''" "''total?''" example_data unreachable_backend initial_api
      example_runtime]
  by (simp add: trim_def is_whitespace_def example_data_def initial_api_def
      unreachable_backend_def)

lemma catch_error_not_precondition:
  "catch_error onLine e \<notin> {MissingCredential, MissingQuery, InvalidDataset}"
  by (cases e)
     (auto simp: catch_error_def request_failed_def Let_def split: option.splits)

lemma analyzeData_valid_fst:
  assumes "trim apiKey \<noteq> []" "trim query \<noteq> []" "rows d \<noteq> []"
  shows "(\<exists>onLine e. fst (analyzeData rt env query (Some d) apiKey s) = Inl (catch_error onLine e))
       \<or> (\<exists>r. fst (analyzeData rt env query (Some d) apiKey s) = Inr r)"
  by (auto simp: analyzeData_valid[OF assms] Let_def split: prod.splits sum.splits option.splits)

lemma probe_requests:
  "\<exists>new. requests (snd (probe env s)) = requests s @ new
     \<and> (\<forall>r \<in> set new. request_base r = baseURL s \<or> request_base r = fallbackURL)
     \<and> (baseURL (snd (probe env s)) = baseURL s \<or> baseURL (snd (probe env s)) = fallbackURL)"
  by (simp add: probe_cases)

lemma analyzeData_requests:
  "\<exists>new. requests (snd (analyzeData rt env query data apiKey s)) = requests s @ new
     \<and> (\<forall>r \<in> set new. request_base r = baseURL s \<or> request_base r = fallbackURL)
     \<and> (baseURL (snd (analyzeData rt env query data apiKey s)) = baseURL s
        \<or> baseURL (snd (analyzeData rt env query data apiKey s)) = fallbackURL)
     \<and> (trim apiKey \<noteq> [] \<and> trim query \<noteq> [] \<and> (\<exists>d. data = Some d \<and> rows d \<noteq> [])
          \<longrightarrow> take 1 new = [POST_convert (baseURL s) (the data)])"
proof (cases "trim apiKey \<noteq> [] \<and> trim query \<noteq> [] \<and> (\<exists>d. data = Some d \<and> rows d \<noteq> [])")
  case False
  then show ?thesis
    by (auto simp: analyzeData_def invalid_data_def truthy_array_def split: option.splits)
next
  case True
  then obtain d where d: "data = Some d" "rows d \<noteq> []" "trim apiKey \<noteq> []" "trim query \<noteq> []"
    by auto
  obtain csv s1 where c: "convertToCSV rt env d s = (csv, s1)"
    by (cases "convertToCSV rt env d s")
  then have s1: "s1 = issue (POST_convert (baseURL s) d) s"
    using convertToCSV_snd[of rt env d s] by simp
  show ?thesis
    unfolding d(1) analyzeData_valid[OF d(3,4,2)] c
    by (simp add: probe_cases s1 issue_def Let_def split: sum.splits option.splits)
qed


text \<open>
  C3, as amended.  An API key that is empty after trimming fails the call with
  \<open>MissingCredential\<close>; otherwise a query that is empty after trimming fails it with
  \<open>MissingQuery\<close>; otherwise a null dataset or a dataset without rows fails it with
  \<open>InvalidDataset\<close>; in these three cases no request is issued.  Any other call, a dataset
  with an empty sequence of headers included, fails with none of the three errors and starts
  with the conversion request.
\<close>

theorem preconditions:
  "(trim apiKey = [] \<longrightarrow> analyzeData rt env query data apiKey s = (Inl MissingCredential, s))
   \<and> (trim apiKey \<noteq> [] \<and> trim query = [] \<longrightarrow>
        analyzeData rt env query data apiKey s = (Inl MissingQuery, s))
   \<and> (trim apiKey \<noteq> [] \<and> trim query \<noteq> [] \<and> (data = None \<or> (\<exists>d. data = Some d \<and> rows d = [])) \<longrightarrow>
        analyzeData rt env query data apiKey s = (Inl InvalidDataset, s))
   \<and> (trim apiKey \<noteq> [] \<and> trim query \<noteq> [] \<and> data = Some d \<and> rows d \<noteq> [] \<longrightarrow>
        fst (analyzeData rt env query data apiKey s)
          \<notin> {Inl MissingCredential, Inl MissingQuery, Inl InvalidDataset}
        \<and> take (Suc (length (requests s))) (requests (snd (analyzeData rt env query data apiKey s)))
          = requests s @ [POST_convert (baseURL s) d])"
proof (intro conjI impI)
  assume v: "trim apiKey \<noteq> [] \<and> trim query \<noteq> [] \<and> data = Some d \<and> rows d \<noteq> []"
  then have v': "trim apiKey \<noteq> []" "trim query \<noteq> []" "rows d \<noteq> []" and d: "data = Some d"
    by auto
  from analyzeData_valid_fst[OF v', of rt env s] catch_error_not_precondition
  show "fst (analyzeData rt env query data apiKey s)
          \<notin> {Inl MissingCredential, Inl MissingQuery, Inl InvalidDataset}"
    unfolding d by fastforce
  from analyzeData_requests[of rt env query data apiKey s] v
  obtain new where n: "requests (snd (analyzeData rt env query data apiKey s)) = requests s @ new"
      "take 1 new = [POST_convert (baseURL s) d]"
    by auto
  then show "take (Suc (length (requests s))) (requests (snd (analyzeData rt env query data apiKey s)))
          = requests s @ [POST_convert (baseURL s) d]"
    by simp
qed (auto simp: analyzeData_def invalid_data_def)

theorem preconditions_witness:
  "analyzeData example_runtime example_backend ''total?'' (Some example_data) ''  '' initial_api
     = (Inl MissingCredential, initial_api)
   \<and> analyzeData example_runtime example_backend [CHR 0x09] (Some example_data) ''sk-1'' initial_api
     = (Inl MissingQuery, initial_api)
   \<and> analyzeData example_runtime example_backend ''total?'' None ''sk-1'' initial_api
     = (Inl InvalidDataset, initial_api)
   \<and> analyzeData example_runtime example_backend ''total?''
       (Some \<lparr>headers = [JStr ''name''], rows = []\<rparr>) ''sk-1'' initial_api
     = (Inl InvalidDataset, initial_api)
   \<and> take (Suc (length (requests (initial_api :: nat api))))
       (requests (snd (analyzeData example_runtime example_backend ''total?'' (Some example_data)
          ''sk-1'' initial_api)))
     = requests initial_api @ [POST_convert (baseURL (initial_api :: nat api)) example_data]"
  using preconditions[of "''  ''" example_runtime example_backend "''total?''" "Some example_data"
      initial_api example_data]
    preconditions[of "''sk-1''" example_runtime example_backend "[CHR 0x09]" "Some example_data"
      initial_api example_data]
    preconditions[of "''sk-1''" example_runtime example_backend "''total?''" None
      initial_api example_data]
    preconditions[of "''sk-1''" example_runtime example_backend "''total?''"
      "Some \<lparr>headers = [JStr ''name''], rows = []\<rparr>" initial_api example_data]
    preconditions[of "''sk-1''" example_runtime example_backend "''total?''" "Some example_data"
      initial_api example_data]
  by (simp add: trim_def is_whitespace_def example_data_def)

text \<open>
  C3 as stated fails: a dataset with no headers and one row passes the guards, and the
  call issues its three requests and returns the answer.
\<close>

theorem empty_headers_accepted:
  "analyzeData example_runtime example_backend ''total?''
       (Some \<lparr>headers = [], rows = [[JNum 1]]\<rparr>) ''sk-1'' initial_api
     = (Inr ''42'',
        \<lparr>baseURL = primaryURL,
         requests = [POST_convert primaryURL \<lparr>headers = [], rows = [[JNum 1]]\<rparr>,
                     GET_health primaryURL,
                     POST_analyze primaryURL (formData ''total?'' ''sk-1'' ''\<newline>1'')]\<rparr>)"
  by (simp add: analyzeData_def trim_def is_whitespace_def invalid_data_def truthy_array_def
      convertToCSV_def convertToCSVLocal_def join_values_def encodeCell_def issue_def
      probe_def testBackendConnection_def example_backend_def example_runtime_def
      initial_api_def not_found_def Let_def comma_def dquote_def newline_def digit_def)

lemma analyzeData_sent:
  assumes "trim apiKey \<noteq> []" and "trim query \<noteq> []" and "rows d \<noteq> []"
    and "probe env (snd (convertToCSV rt env d s)) = (Inr u, s2)"
  shows "analyzeData rt env query (Some d) apiKey s =
     (let form = formData query apiKey (fst (convertToCSV rt env d s));
          s3 = issue (POST_analyze (baseURL s2) form) s2;
          onLine = navigator_onLine env (requests s3)
      in (case post_analyze env (requests s2) (baseURL s2) form of
            Inl e \<Rightarrow> (Inl (catch_error onLine (AxiosError e)), s3)
          | Inr None \<Rightarrow> (Inl UnexpectedError, s3)
          | Inr (Some response) \<Rightarrow> (Inr response, s3)))"
  using assms(4)
  by (cases "convertToCSV rt env d s")
     (simp add: analyzeData_valid[OF assms(1-3)] Let_def catch_error_def
        split: sum.splits option.splits)

text \<open>
  C2, as amended.  When the send is rejected: if the browser is offline or the error code
  is \<^verbatim>\<open>ERR_NETWORK\<close> the call fails with \<open>BackendUnreachable\<close>, whatever the response;
  otherwise if the code is \<^verbatim>\<open>ECONNABORTED\<close> it fails with \<open>Timeout\<close>; otherwise the status
  of the response decides by the table of section 6, a status outside the table gives
  \<open>ServerMessage\<close> with the detail of the body when that is a non-empty text, and
  \<open>UnknownFailure\<close> in every remaining case.
\<close>

theorem error_mapping:
  assumes "trim apiKey \<noteq> []" and "trim query \<noteq> []" and "rows d \<noteq> []"
    and "probe env (snd (convertToCSV rt env d s)) = (Inr (), s2)"
    and "form = formData query apiKey (fst (convertToCSV rt env d s))"
    and "post_analyze env (requests s2) (baseURL s2) form = Inl e"
    and "onLine = navigator_onLine env (requests s2 @ [POST_analyze (baseURL s2) form])"
    and "result = fst (analyzeData rt env query (Some d) apiKey s)"
  shows "(\<not> onLine \<or> err_code e = Some ''ERR_NETWORK'' \<longrightarrow> result = Inl BackendUnreachable)
       \<and> (onLine \<and> err_code e \<noteq> Some ''ERR_NETWORK'' \<and> err_code e = Some ''ECONNABORTED'' \<longrightarrow>
            result = Inl Timeout)
       \<and> (onLine \<and> err_code e \<noteq> Some ''ERR_NETWORK'' \<and> err_code e \<noteq> Some ''ECONNABORTED'' \<longrightarrow>
            (case err_response e of
               None \<Rightarrow> result = Inl (UnknownFailure None)
             | Some r \<Rightarrow>
                 (case spec_status_error (status r) of
                    Some err \<Rightarrow> result = Inl err
                  | None \<Rightarrow>
                      (case detail r of
                         Some text \<Rightarrow>
                           if text \<noteq> [] then result = Inl (ServerMessage text)
                           else result = Inl (request_failed (err_response e))
                       | None \<Rightarrow> result = Inl (request_failed (err_response e))))))"
proof -
  have r: "result = Inl (catch_error onLine (AxiosError e))"
    unfolding assms(8) analyzeData_sent[OF assms(1-4)]
    using assms(5,6,7) by (simp add: Let_def issue_def)
  show ?thesis
    unfolding r
    by (auto simp: catch_error_def spec_status_error_def request_failed_def Let_def
        split: option.splits)
qed


lemma example_probe:
  "probe example_backend (snd (convertToCSV example_runtime example_backend example_data initial_api))
     = (Inr (), \<lparr>baseURL = primaryURL,
          requests = [POST_convert primaryURL example_data, GET_health primaryURL]\<rparr>)"
  by (simp add: probe_cases convertToCSV_snd issue_def initial_api_def example_backend_def)

theorem error_mapping_witness:
  "fst (analyzeData example_runtime rate_limiting_backend ''total?'' (Some example_data) ''sk-1''
      initial_api) = Inl RateLimited"
proof -
  have p: "probe rate_limiting_backend
      (snd (convertToCSV example_runtime rate_limiting_backend example_data initial_api))
     = (Inr (), \<lparr>baseURL = primaryURL,
          requests = [POST_convert primaryURL example_data, GET_health primaryURL]\<rparr>)"
    by (simp add: probe_cases convertToCSV_snd issue_def initial_api_def example_backend_def
        rate_limiting_backend_def)
  have t: "trim ''sk-1'' \<noteq> []" "trim ''total?'' \<noteq> []" "rows example_data \<noteq> []"
    by (simp_all add: trim_def is_whitespace_def example_data_def)
  from error_mapping[OF t p refl _ refl refl,
      of "\<lparr>err_code = Some ''ERR_BAD_REQUEST'',
           err_response = Some \<lparr>status = 429, detail = Some ''slow down''\<rparr>\<rparr>"]
  show ?thesis
    by (simp add: rate_limiting_backend_def example_backend_def spec_status_error_def)
qed

text \<open>
  C2 as stated fails: with the browser offline, a response of status 401 is classified as
  \<open>BackendUnreachable\<close>, not as \<open>InvalidCredential\<close>.
\<close>

theorem offline_unauthorized_counterexample:
  "post_analyze offline_unauthorized
       [POST_convert primaryURL example_data, GET_health primaryURL] primaryURL
       (formData ''total?'' ''sk-1'' ''name,value\<newline>A,1\<newline>B,2'')
     = Inl \<lparr>err_code = Some ''ERR_BAD_REQUEST'',
            err_response = Some \<lparr>status = 401, detail = None\<rparr>\<rparr>
   \<and> analyzeData example_runtime offline_unauthorized ''total?'' (Some example_data) ''sk-1''
       initial_api
     = (Inl BackendUnreachable,
        \<lparr>baseURL = primaryURL,
         requests = [POST_convert primaryURL example_data, GET_health primaryURL,
                     POST_analyze primaryURL
                       (formData ''total?'' ''sk-1'' ''name,value\<newline>A,1\<newline>B,2'')]\<rparr>)"
  by (simp add: analyzeData_def trim_def is_whitespace_def invalid_data_def truthy_array_def
      convertToCSV_def convertToCSVLocal_def join_values_def encodeCell_def issue_def
      probe_def testBackendConnection_def example_backend_def example_runtime_def
      offline_unauthorized_def unauthorized_def catch_error_def example_data_def
      initial_api_def not_found_def Let_def comma_def dquote_def newline_def digit_def)

text \<open>
  C4, as amended.  In a call that reaches the send, the file part, named
  \<^verbatim>\<open>data.csv\<close>, is the \<^verbatim>\<open>csv\<close> text of the backend's answer to the conversion request
  when that answer carries a non-empty one, and the output of \<open>convertToCSVLocal\<close> on the
  dataset in every other case.
\<close>

theorem file_part:
  assumes "trim apiKey \<noteq> []" and "trim query \<noteq> []" and "rows d \<noteq> []"
    and "probe env (snd (convertToCSV rt env d s)) = (Inr (), s2)"
  shows "last (requests (snd (analyzeData rt env query (Some d) apiKey s))) =
           POST_analyze (baseURL s2)
             \<lparr>query_part = query, api_key_part = apiKey, file_name = ''data.csv'',
              file_part =
                (case post_convert env (requests s) (baseURL s) d of
                   Inr (Some csv) \<Rightarrow> if csv = [] then convertToCSVLocal rt d else csv
                 | _ \<Rightarrow> convertToCSVLocal rt d)\<rparr>"
  unfolding analyzeData_sent[OF assms]
  by (simp add: Let_def issue_def formData_def convertToCSV_fst split: sum.splits option.splits)

theorem file_part_witness:
  "last (requests (snd (analyzeData example_runtime example_backend ''total?'' (Some example_data)
      ''sk-1'' initial_api)))
     = POST_analyze primaryURL
         \<lparr>query_part = ''total?'', api_key_part = ''sk-1'', file_name = ''data.csv'',
          file_part = ''name,value\<newline>A,1\<newline>B,2''\<rparr>"
proof -
  have t: "trim ''sk-1'' \<noteq> []" "trim ''total?'' \<noteq> []" "rows example_data \<noteq> []"
    by (simp_all add: trim_def is_whitespace_def example_data_def)
  have c: "convertToCSVLocal example_runtime example_data = ''name,value\<newline>A,1\<newline>B,2''"
    by (simp add: convertToCSVLocal_def join_values_def encodeCell_def example_runtime_def
        example_data_def Let_def comma_def dquote_def newline_def digit_def)
  from file_part[OF t example_probe] show ?thesis
    by (simp add: c example_backend_def initial_api_def)
qed

text \<open>
  C4 as stated fails: when the backend answers the conversion request, the file part is
  the backend's text and not the encoder's output.
\<close>

theorem backend_conversion_counterexample:
  "analyzeData example_runtime converting_backend ''total?'' (Some example_data) ''sk-1'' initial_api
     = (Inr ''42'',
        \<lparr>baseURL = primaryURL,
         requests = [POST_convert primaryURL example_data, GET_health primaryURL,
                     POST_analyze primaryURL
                       \<lparr>query_part = ''total?'', api_key_part = ''sk-1'', file_name = ''data.csv'',
                        file_part = ''x''\<rparr>]\<rparr>)
   \<and> convertToCSVLocal example_runtime example_data = ''name,value\<newline>A,1\<newline>B,2''"
  by (simp add: analyzeData_def trim_def is_whitespace_def invalid_data_def truthy_array_def
      convertToCSV_def convertToCSVLocal_def join_values_def encodeCell_def issue_def
      probe_def testBackendConnection_def example_backend_def example_runtime_def
      converting_backend_def formData_def example_data_def
      initial_api_def Let_def comma_def dquote_def newline_def digit_def)

lemma analyzeData_at_fallback:
  assumes "baseURL s = fallbackURL"
  shows "baseURL (snd (analyzeData rt env query data apiKey s)) = fallbackURL
       \<and> (\<exists>new. requests (snd (analyzeData rt env query data apiKey s)) = requests s @ new
            \<and> (\<forall>r \<in> set new. request_base r = fallbackURL))"
  using analyzeData_requests[of rt env query data apiKey s] assms by auto

lemma submit_all_at_fallback:
  "baseURL s = fallbackURL \<Longrightarrow>
     baseURL (submit_all rt calls s) = fallbackURL
     \<and> (\<exists>new. requests (submit_all rt calls s) = requests s @ new
          \<and> (\<forall>r \<in> set new. request_base r = fallbackURL))"
proof (induction calls arbitrary: s)
  case Nil
  then show ?case by simp
next
  case (Cons call calls)
  obtain env query data apiKey where call: "call = (env, query, data, apiKey)"
    by (cases call)
  let ?s = "snd (analyzeData rt env query data apiKey s)"
  from analyzeData_at_fallback[OF Cons.prems, of rt env query data apiKey]
  obtain new1 where s1: "baseURL ?s = fallbackURL" "requests ?s = requests s @ new1"
      "\<forall>r \<in> set new1. request_base r = fallbackURL"
    by blast
  from Cons.IH[OF s1(1)]
  obtain new2 where s2: "baseURL (submit_all rt calls ?s) = fallbackURL"
      "requests (submit_all rt calls ?s) = requests ?s @ new2"
      "\<forall>r \<in> set new2. request_base r = fallbackURL"
    by blast
  have "requests (submit_all rt (call # calls) s) = requests s @ (new1 @ new2)"
    by (simp add: call s2(2) s1(2))
  moreover have "\<forall>r \<in> set (new1 @ new2). request_base r = fallbackURL"
    using s1(3) s2(3) by auto
  ultimately show ?case
    using s2(1) by (simp only: call submit_all.simps) blast
qed

lemma analyzeData_later_call:
  assumes "trim apiKey \<noteq> []" and "trim query \<noteq> []" and "rows d \<noteq> []"
    and "baseURL s = fallbackURL"
  shows "requests (snd (analyzeData rt env query (Some d) apiKey s)) =
           requests s @ [POST_convert fallbackURL d, GET_health fallbackURL] @
             (if get_health env (requests s @ [POST_convert fallbackURL d]) fallbackURL
              then [POST_analyze fallbackURL (formData query apiKey (fst (convertToCSV rt env d s)))]
              else if get_health env
                        (requests s @ [POST_convert fallbackURL d, GET_health fallbackURL]) fallbackURL
              then [GET_health fallbackURL,
                    POST_analyze fallbackURL (formData query apiKey (fst (convertToCSV rt env d s)))]
              else [GET_health fallbackURL])"
    and "get_health env (requests s @ [POST_convert fallbackURL d]) fallbackURL \<Longrightarrow>
         post_analyze env (requests s @ [POST_convert fallbackURL d, GET_health fallbackURL]) fallbackURL
           (formData query apiKey (fst (convertToCSV rt env d s))) = Inr (Some answer) \<Longrightarrow>
         fst (analyzeData rt env query (Some d) apiKey s) = Inr answer"
proof -
  obtain csv s1 where c: "convertToCSV rt env d s = (csv, s1)"
    by (cases "convertToCSV rt env d s")
  then have s1: "s1 = issue (POST_convert (baseURL s) d) s"
    using convertToCSV_snd[of rt env d s] by simp
  show "requests (snd (analyzeData rt env query (Some d) apiKey s)) =
           requests s @ [POST_convert fallbackURL d, GET_health fallbackURL] @
             (if get_health env (requests s @ [POST_convert fallbackURL d]) fallbackURL
              then [POST_analyze fallbackURL (formData query apiKey (fst (convertToCSV rt env d s)))]
              else if get_health env
                        (requests s @ [POST_convert fallbackURL d, GET_health fallbackURL]) fallbackURL
              then [GET_health fallbackURL,
                    POST_analyze fallbackURL (formData query apiKey (fst (convertToCSV rt env d s)))]
              else [GET_health fallbackURL])"
    unfolding analyzeData_valid[OF assms(1-3)] c
    using assms(4)
    by (simp add: probe_cases s1 issue_def Let_def split: sum.splits option.splits)
  show "fst (analyzeData rt env query (Some d) apiKey s) = Inr answer"
    if "get_health env (requests s @ [POST_convert fallbackURL d]) fallbackURL"
      and "post_analyze env (requests s @ [POST_convert fallbackURL d, GET_health fallbackURL]) fallbackURL
           (formData query apiKey (fst (convertToCSV rt env d s))) = Inr (Some answer)"
    unfolding analyzeData_valid[OF assms(1-3)] c
    using assms(4) that
    by (simp add: probe_cases s1 issue_def Let_def c split: sum.splits option.splits)
qed


text \<open>
  C9.  When the health request fails at the active address and succeeds at the fallback
  address, the send of that call goes to the fallback address, and the call returns the
  answer when the send is answered; the base address is the fallback address afterwards,
  and after any sequence of later calls, in whatever environment, it still is, every
  request of those calls having gone to the fallback address.  A call that comes after
  them and passes the guards issues its conversion request and its first health request at
  the fallback address; when that health request succeeds the send follows at the fallback
  address, and the call returns the answer when the send is answered; when it fails the
  health request is repeated at the fallback address, and the send follows there if the
  repetition succeeds.
\<close>

theorem fallback_persists:
  assumes "trim apiKey \<noteq> []" and "trim query \<noteq> []" and "rows d \<noteq> []"
    and "\<not> get_health env (requests s @ [POST_convert (baseURL s) d]) (baseURL s)"
    and "get_health env (requests s @ [POST_convert (baseURL s) d, GET_health (baseURL s)]) fallbackURL"
    and "s' = snd (analyzeData rt env query (Some d) apiKey s)"
    and "later = submit_all rt calls s'"
  shows "baseURL s' = fallbackURL
       \<and> requests s' =
           requests s @ [POST_convert (baseURL s) d, GET_health (baseURL s), GET_health fallbackURL,
             POST_analyze fallbackURL (formData query apiKey (fst (convertToCSV rt env d s)))]
       \<and> (\<forall>answer.
             post_analyze env
               (requests s @ [POST_convert (baseURL s) d, GET_health (baseURL s), GET_health fallbackURL])
               fallbackURL (formData query apiKey (fst (convertToCSV rt env d s))) = Inr (Some answer)
             \<longrightarrow> fst (analyzeData rt env query (Some d) apiKey s) = Inr answer)
       \<and> baseURL (submit_all rt calls s') = fallbackURL
       \<and> (\<forall>r \<in> set (drop (length (requests s')) (requests (submit_all rt calls s'))).
             request_base r = fallbackURL)
       \<and> (trim apiKey2 \<noteq> [] \<and> trim query2 \<noteq> [] \<and> rows d2 \<noteq> [] \<longrightarrow>
            requests (snd (analyzeData rt env2 query2 (Some d2) apiKey2 later)) =
              requests later @ [POST_convert fallbackURL d2, GET_health fallbackURL] @
                (if get_health env2 (requests later @ [POST_convert fallbackURL d2]) fallbackURL
                 then [POST_analyze fallbackURL
                         (formData query2 apiKey2 (fst (convertToCSV rt env2 d2 later)))]
                 else if get_health env2
                           (requests later @ [POST_convert fallbackURL d2, GET_health fallbackURL])
                           fallbackURL
                 then [GET_health fallbackURL,
                       POST_analyze fallbackURL
                         (formData query2 apiKey2 (fst (convertToCSV rt env2 d2 later)))]
                 else [GET_health fallbackURL])
            \<and> (\<forall>answer.
                  get_health env2 (requests later @ [POST_convert fallbackURL d2]) fallbackURL
                  \<and> post_analyze env2
                      (requests later @ [POST_convert fallbackURL d2, GET_health fallbackURL])
                      fallbackURL (formData query2 apiKey2 (fst (convertToCSV rt env2 d2 later)))
                      = Inr (Some answer)
                  \<longrightarrow> fst (analyzeData rt env2 query2 (Some d2) apiKey2 later) = Inr answer))"
proof -
  have p: "probe env (snd (convertToCSV rt env d s)) =
      (Inr (), \<lparr>baseURL = fallbackURL,
        requests = requests s @ [POST_convert (baseURL s) d, GET_health (baseURL s),
          GET_health fallbackURL]\<rparr>)"
    using assms(4,5) by (simp add: probe_cases convertToCSV_snd issue_def)
  have b: "baseURL s' = fallbackURL"
    and r: "requests s' =
           requests s @ [POST_convert (baseURL s) d, GET_health (baseURL s), GET_health fallbackURL,
             POST_analyze fallbackURL (formData query apiKey (fst (convertToCSV rt env d s)))]"
    unfolding assms(6) analyzeData_sent[OF assms(1-3) p]
    by (simp_all add: Let_def issue_def split: sum.splits option.splits)
  have a: "fst (analyzeData rt env query (Some d) apiKey s) = Inr answer"
    if "post_analyze env
          (requests s @ [POST_convert (baseURL s) d, GET_health (baseURL s), GET_health fallbackURL])
          fallbackURL (formData query apiKey (fst (convertToCSV rt env d s))) = Inr (Some answer)"
    for answer
    unfolding analyzeData_sent[OF assms(1-3) p] using that by (simp add: Let_def)
  from submit_all_at_fallback[OF b, of rt calls]
  have l: "baseURL later = fallbackURL"
    and k: "baseURL (submit_all rt calls s') = fallbackURL"
      "\<forall>r \<in> set (drop (length (requests s')) (requests (submit_all rt calls s'))).
             request_base r = fallbackURL"
    unfolding assms(7) by auto
  have n: "trim apiKey2 \<noteq> [] \<and> trim query2 \<noteq> [] \<and> rows d2 \<noteq> [] \<longrightarrow>
            requests (snd (analyzeData rt env2 query2 (Some d2) apiKey2 later)) =
              requests later @ [POST_convert fallbackURL d2, GET_health fallbackURL] @
                (if get_health env2 (requests later @ [POST_convert fallbackURL d2]) fallbackURL
                 then [POST_analyze fallbackURL
                         (formData query2 apiKey2 (fst (convertToCSV rt env2 d2 later)))]
                 else if get_health env2
                           (requests later @ [POST_convert fallbackURL d2, GET_health fallbackURL])
                           fallbackURL
                 then [GET_health fallbackURL,
                       POST_analyze fallbackURL
                         (formData query2 apiKey2 (fst (convertToCSV rt env2 d2 later)))]
                 else [GET_health fallbackURL])
            \<and> (\<forall>answer.
                  get_health env2 (requests later @ [POST_convert fallbackURL d2]) fallbackURL
                  \<and> post_analyze env2
                      (requests later @ [POST_convert fallbackURL d2, GET_health fallbackURL])
                      fallbackURL (formData query2 apiKey2 (fst (convertToCSV rt env2 d2 later)))
                      = Inr (Some answer)
                  \<longrightarrow> fst (analyzeData rt env2 query2 (Some d2) apiKey2 later) = Inr answer)"
  proof (intro impI conjI allI)
    assume v: "trim apiKey2 \<noteq> [] \<and> trim query2 \<noteq> [] \<and> rows d2 \<noteq> []"
    then have v': "trim apiKey2 \<noteq> []" "trim query2 \<noteq> []" "rows d2 \<noteq> []" by auto
    show "requests (snd (analyzeData rt env2 query2 (Some d2) apiKey2 later)) =
              requests later @ [POST_convert fallbackURL d2, GET_health fallbackURL] @
                (if get_health env2 (requests later @ [POST_convert fallbackURL d2]) fallbackURL
                 then [POST_analyze fallbackURL
                         (formData query2 apiKey2 (fst (convertToCSV rt env2 d2 later)))]
                 else if get_health env2
                           (requests later @ [POST_convert fallbackURL d2, GET_health fallbackURL])
                           fallbackURL
                 then [GET_health fallbackURL,
                       POST_analyze fallbackURL
                         (formData query2 apiKey2 (fst (convertToCSV rt env2 d2 later)))]
                 else [GET_health fallbackURL])"
      by (rule analyzeData_later_call(1)[OF v' l])
    fix answer
    assume "get_health env2 (requests later @ [POST_convert fallbackURL d2]) fallbackURL
                  \<and> post_analyze env2
                      (requests later @ [POST_convert fallbackURL d2, GET_health fallbackURL])
                      fallbackURL (formData query2 apiKey2 (fst (convertToCSV rt env2 d2 later)))
                      = Inr (Some answer)"
    then have g: "get_health env2 (requests later @ [POST_convert fallbackURL d2]) fallbackURL"
      and pa: "post_analyze env2
                      (requests later @ [POST_convert fallbackURL d2, GET_health fallbackURL])
                      fallbackURL (formData query2 apiKey2 (fst (convertToCSV rt env2 d2 later)))
                      = Inr (Some answer)"
      by simp_all
    show "fst (analyzeData rt env2 query2 (Some d2) apiKey2 later) = Inr answer"
      by (rule analyzeData_later_call(2)[OF v' l g pa])
  qed
  from b r a k n show ?thesis
    by (intro conjI allI impI) blast+
qed

theorem fallback_persists_witness:
  "baseURL (snd (analyzeData example_runtime fallback_only ''total?'' (Some example_data) ''sk-1''
      initial_api)) = fallbackURL
   \<and> requests (snd (analyzeData example_runtime fallback_only ''total?'' (Some example_data) ''sk-1''
      initial_api))
     = [POST_convert primaryURL example_data, GET_health primaryURL, GET_health fallbackURL,
        POST_analyze fallbackURL (formData ''total?'' ''sk-1'' ''name,value\<newline>A,1\<newline>B,2'')]
   \<and> baseURL (submit_all example_runtime [(unreachable_backend, ''again?'', Some example_data, ''sk-1'')]
       (snd (analyzeData example_runtime fallback_only ''total?'' (Some example_data) ''sk-1''
          initial_api))) = fallbackURL
   \<and> fst (analyzeData example_runtime example_backend ''and now?'' (Some example_data) ''sk-1''
       (submit_all example_runtime [(unreachable_backend, ''again?'', Some example_data, ''sk-1'')]
         (snd (analyzeData example_runtime fallback_only ''total?'' (Some example_data) ''sk-1''
            initial_api))))
     = Inr ''42''
   \<and> requests (snd (analyzeData example_runtime example_backend ''and now?'' (Some example_data)
       ''sk-1''
       (submit_all example_runtime [(unreachable_backend, ''again?'', Some example_data, ''sk-1'')]
         (snd (analyzeData example_runtime fallback_only ''total?'' (Some example_data) ''sk-1''
            initial_api)))))
     = [POST_convert primaryURL example_data, GET_health primaryURL, GET_health fallbackURL,
        POST_analyze fallbackURL (formData ''total?'' ''sk-1'' ''name,value\<newline>A,1\<newline>B,2''),
        POST_convert fallbackURL example_data, GET_health fallbackURL, GET_health fallbackURL,
        POST_convert fallbackURL example_data, GET_health fallbackURL,
        POST_analyze fallbackURL
          (formData ''and now?'' ''sk-1'' ''name,value\<newline>A,1\<newline>B,2'')]"
proof -
  let ?s' = "snd (analyzeData example_runtime fallback_only ''total?'' (Some example_data) ''sk-1''
      initial_api)"
  let ?later = "submit_all example_runtime
      [(unreachable_backend, ''again?'', Some example_data, ''sk-1'')] ?s'"
  let ?end = "analyzeData example_runtime example_backend ''and now?'' (Some example_data) ''sk-1''
      ?later"
  have t: "trim ''sk-1'' \<noteq> []" "trim ''total?'' \<noteq> []" "rows example_data \<noteq> []"
      "trim ''and now?'' \<noteq> []" "trim ''again?'' \<noteq> []"
    by (simp_all add: trim_def is_whitespace_def example_data_def)
  have c: "convertToCSVLocal example_runtime example_data = ''name,value\<newline>A,1\<newline>B,2''"
    by (simp add: convertToCSVLocal_def join_values_def encodeCell_def example_runtime_def
        example_data_def Let_def comma_def dquote_def newline_def digit_def)
  have h: "\<not> get_health fallback_only
        (requests (initial_api :: nat api) @ [POST_convert (baseURL (initial_api :: nat api)) example_data])
        (baseURL (initial_api :: nat api))"
      "get_health fallback_only
        (requests (initial_api :: nat api) @ [POST_convert (baseURL (initial_api :: nat api)) example_data,
           GET_health (baseURL (initial_api :: nat api))]) fallbackURL"
    by (simp_all add: fallback_only_def example_backend_def initial_api_def primaryURL_def
        fallbackURL_def)
  note f = fallback_persists[OF t(1,2,3) h refl refl,
      of example_runtime "[(unreachable_backend, ''again?'', Some example_data, ''sk-1'')]"
        "''sk-1''" "''and now?''" example_data example_backend]
  from f have s': "baseURL ?s' = fallbackURL"
      "requests ?s' = [POST_convert primaryURL example_data, GET_health primaryURL,
        GET_health fallbackURL,
        POST_analyze fallbackURL (formData ''total?'' ''sk-1'' ''name,value\<newline>A,1\<newline>B,2'')]"
    by (simp_all add: initial_api_def convertToCSV_fst fallback_only_def example_backend_def c)
  from f have lb: "baseURL ?later = fallbackURL" by simp
  have lr: "requests ?later = requests ?s' @
      [POST_convert fallbackURL example_data, GET_health fallbackURL, GET_health fallbackURL]"
    using analyzeData_later_call(1)[OF t(1,5,3) s'(1), of example_runtime unreachable_backend]
    by (simp add: unreachable_backend_def example_backend_def)
  from f t have er: "requests (snd ?end) = requests ?later @
      [POST_convert fallbackURL example_data, GET_health fallbackURL,
       POST_analyze fallbackURL (formData ''and now?'' ''sk-1'' ''name,value\<newline>A,1\<newline>B,2'')]"
    and ea: "fst ?end = Inr ''42''"
    by (simp_all add: example_backend_def convertToCSV_fst c)
  from s' lb ea er lr show ?thesis
    by (simp only: append.simps simp_thms)
qed

section \<open>The round trip through the CSV text\<close>

lemma special_chars_distinct:
  "comma \<noteq> dquote" "comma \<noteq> newline" "comma \<noteq> carriage_return"
  "dquote \<noteq> newline" "dquote \<noteq> carriage_return" "newline \<noteq> carriage_return"
  by (simp_all add: comma_def dquote_def newline_def carriage_return_def)

lemma tokenize_from_comma:
  "m \<noteq> InQuoted \<Longrightarrow>
     tokenize_from m f r rs (comma # cs) = tokenize_from FieldStart [] (rev f # r) rs cs"
  using special_chars_distinct by simp

lemma tokenize_from_newline:
  "m \<noteq> InQuoted \<Longrightarrow>
     tokenize_from m f r rs (newline # cs) = tokenize_from FieldStart [] [] (rev (rev f # r) # rs) cs"
  using special_chars_distinct by simp

lemma tokenize_from_end:
  "m \<noteq> InQuoted \<Longrightarrow> tokenize_from m f r rs [] = Inr (rev (rev (rev f # r) # rs))"
  by simp

lemma tokenize_from_plain:
  assumes "\<forall>c \<in> set s. c \<noteq> comma \<and> c \<noteq> dquote \<and> c \<noteq> newline \<and> c \<noteq> carriage_return"
    and "m = FieldStart \<or> m = InField"
  shows "tokenize_from m f r rs (s @ rest) =
           tokenize_from (if s = [] then m else InField) (rev s @ f) r rs rest"
  using assms
proof (induction s arbitrary: m f)
  case Nil
  show ?case by simp
next
  case (Cons c s)
  from Cons.prems have c: "c \<noteq> comma" "c \<noteq> dquote" "c \<noteq> newline" "c \<noteq> carriage_return"
    and s: "\<forall>c \<in> set s. c \<noteq> comma \<and> c \<noteq> dquote \<and> c \<noteq> newline \<and> c \<noteq> carriage_return"
    by auto
  from Cons.prems(2) c
  have "tokenize_from m f r rs ((c # s) @ rest) = tokenize_from InField (c # f) r rs (s @ rest)"
    by auto
  also have "\<dots> = tokenize_from (if s = [] then InField else InField) (rev s @ c # f) r rs rest"
    by (rule Cons.IH[OF s]) simp
  finally show ?case by simp
qed

lemma tokenize_from_quoted:
  "tokenize_from InQuoted f r rs (replace_quotes s @ dquote # rest) =
     tokenize_from AfterQuote (rev s @ f) r rs rest"
  by (induction s arbitrary: f) simp_all

lemma tokenize_from_open_quote:
  "tokenize_from FieldStart f r rs (dquote # cs) = tokenize_from InQuoted [] r rs cs"
  by simp

declare tokenize_from.simps [simp del]

lemma spec_quote_cases:
  "spec_quote s = (if comma \<in> set s \<or> dquote \<in> set s then dquote # replace_quotes s @ [dquote] else s)"
  by (simp add: spec_quote_def replace_quotes_concat)

lemma tokenize_from_field:
  assumes "newline \<notin> set s" and "carriage_return \<notin> set s"
  shows "\<exists>m. m \<noteq> InQuoted \<and>
           (\<forall>rest. tokenize_from FieldStart [] r rs (spec_quote s @ rest) = tokenize_from m (rev s) r rs rest)"
proof (cases "comma \<in> set s \<or> dquote \<in> set s")
  case True
  then have "tokenize_from FieldStart [] r rs (spec_quote s @ rest) =
      tokenize_from AfterQuote (rev s) r rs rest" for rest
    using tokenize_from_quoted[of "[]" r rs s rest]
    by (simp add: spec_quote_cases tokenize_from_open_quote)
  then show ?thesis by blast
next
  case False
  with assms have "\<forall>c \<in> set s. c \<noteq> comma \<and> c \<noteq> dquote \<and> c \<noteq> newline \<and> c \<noteq> carriage_return"
    by auto
  from tokenize_from_plain[OF this, of FieldStart "[]" r rs] False
  have "tokenize_from FieldStart [] r rs (spec_quote s @ rest) =
      tokenize_from (if s = [] then FieldStart else InField) (rev s) r rs rest" for rest
    by (simp add: spec_quote_cases)
  then show ?thesis by (intro exI[of _ "if s = [] then FieldStart else InField"]) simp
qed

lemma tokenize_from_row:
  assumes "fs \<noteq> []" and "\<forall>s \<in> set fs. newline \<notin> set s \<and> carriage_return \<notin> set s"
  shows "tokenize_from FieldStart [] r rs (join [comma] (map spec_quote fs)) =
           Inr (rev (rev (rev fs @ r) # rs))"
    and "tokenize_from FieldStart [] r rs (join [comma] (map spec_quote fs) @ newline # cs) =
           tokenize_from FieldStart [] [] (rev (rev fs @ r) # rs) cs"
  using assms
proof (induction fs arbitrary: r)
  case Nil
  { case 1 then show ?case by simp }
  { case 2 then show ?case by simp }
next
  case (Cons s fs)
  { case 1
    from 1 obtain m where m: "m \<noteq> InQuoted"
        "\<And>rest. tokenize_from FieldStart [] r rs (spec_quote s @ rest) = tokenize_from m (rev s) r rs rest"
      using tokenize_from_field[of s r rs] by auto
    show ?case
    proof (cases fs)
      case Nil
      with m(2)[of "[]"] m(1) show ?thesis by (simp add: tokenize_from_end)
    next
      case (Cons s' fs')
      have "tokenize_from FieldStart [] r rs (join [comma] (map spec_quote (s # fs))) =
          tokenize_from FieldStart [] r rs (spec_quote s @ comma # join [comma] (map spec_quote fs))"
        by (simp add: Cons)
      also have "\<dots> = tokenize_from FieldStart [] (s # r) rs (join [comma] (map spec_quote fs))"
        by (simp only: m(2) tokenize_from_comma[OF m(1)] rev_rev_ident)
      also have "\<dots> = Inr (rev (rev (rev fs @ s # r) # rs))"
        using Cons.IH(1)[of "s # r"] 1 Cons by simp
      finally show ?thesis by simp
    qed }
  { case 2
    from 2 obtain m where m: "m \<noteq> InQuoted"
        "\<And>rest. tokenize_from FieldStart [] r rs (spec_quote s @ rest) = tokenize_from m (rev s) r rs rest"
      using tokenize_from_field[of s r rs] by auto
    show ?case
    proof (cases fs)
      case Nil
      with m(2)[of "newline # cs"] m(1) show ?thesis by (simp add: tokenize_from_newline)
    next
      case (Cons s' fs')
      have "tokenize_from FieldStart [] r rs (join [comma] (map spec_quote (s # fs)) @ newline # cs) =
          tokenize_from FieldStart [] r rs
            (spec_quote s @ comma # (join [comma] (map spec_quote fs) @ newline # cs))"
        by (simp add: Cons)
      also have "\<dots> = tokenize_from FieldStart [] (s # r) rs
            (join [comma] (map spec_quote fs) @ newline # cs)"
        by (simp only: m(2) tokenize_from_comma[OF m(1)] rev_rev_ident)
      also have "\<dots> = tokenize_from FieldStart [] [] (rev (rev fs @ s # r) # rs) cs"
        using Cons.IH(2)[of "s # r"] 2 Cons by simp
      finally show ?thesis by simp
    qed }
qed

lemma tokenize_from_rows:
  assumes "table \<noteq> []"
    and "\<forall>fs \<in> set table. fs \<noteq> [] \<and> (\<forall>s \<in> set fs. newline \<notin> set s \<and> carriage_return \<notin> set s)"
  shows "tokenize_from FieldStart [] [] rs
           (join [newline] (map (\<lambda>fs. join [comma] (map spec_quote fs)) table)) =
         Inr (rev rs @ table)"
  using assms
proof (induction table arbitrary: rs)
  case Nil
  then show ?case by simp
next
  case (Cons fs table)
  from Cons.prems have f: "fs \<noteq> []" "\<forall>s \<in> set fs. newline \<notin> set s \<and> carriage_return \<notin> set s"
    by auto
  show ?case
  proof (cases table)
    case Nil
    then show ?thesis using tokenize_from_row(1)[OF f, of "[]" rs] by simp
  next
    case (Cons fs' table')
    have "tokenize_from FieldStart [] [] rs
           (join [newline] (map (\<lambda>fs. join [comma] (map spec_quote fs)) (fs # table))) =
          tokenize_from FieldStart [] [] rs
           (join [comma] (map spec_quote fs) @ newline #
              join [newline] (map (\<lambda>fs. join [comma] (map spec_quote fs)) table))"
      by (simp add: Cons)
    also have "\<dots> = tokenize_from FieldStart [] [] (fs # rs)
              (join [newline] (map (\<lambda>fs. join [comma] (map spec_quote fs)) table))"
      using tokenize_from_row(2)[OF f, of "[]" rs] by simp
    also have "\<dots> = Inr (rev (fs # rs) @ table)"
      using Cons.IH[of "fs # rs"] Cons.prems Cons by simp
    finally show ?thesis by simp
  qed
qed


lemma no_control_line_breaks:
  "no_control s \<Longrightarrow> newline \<notin> set s \<and> carriage_return \<notin> set s"
  by (auto simp: no_control_def is_control_def newline_def carriage_return_def)

lemma join_values_strings: "join_values rt sep (map JStr hs) = join sep hs"
proof -
  have "map (\<lambda>v. if v = JUndefined \<or> v = JNull then [] else String_of rt v) (map JStr hs) = hs"
    by (induction hs) simp_all
  then show ?thesis by (simp add: join_values_def)
qed

lemma encodeCell_fun: "encodeCell rt = (\<lambda>cell. spec_quote (spec_stringify rt cell))"
  by (rule ext) (rule encodeCell_quote_stringify)

lemma convertToCSVLocal_table:
  assumes "\<forall>h \<in> set hs. comma \<notin> set h \<and> dquote \<notin> set h"
  shows "convertToCSVLocal rt \<lparr>headers = map JStr hs, rows = rs\<rparr> =
           join [newline] (map (\<lambda>fs. join [comma] (map spec_quote fs))
             (hs # map (map (spec_stringify rt)) rs))"
proof -
  from assms have "map spec_quote hs = hs"
    by (induction hs) (simp_all add: spec_quote_def)
  then show ?thesis
    by (simp add: convertToCSVLocal_def Let_def join_values_strings encodeCell_fun comp_def)
qed

lemma sanitize_strings: "map_throwing (sanitizeCell rt) (map JStr xs) = Inr (map JStr xs)"
  by (induction xs) (simp_all add: sanitizeCell_def)

lemma sanitize_string_rows:
  "map_throwing (\<lambda>row. map_throwing (sanitizeCell rt) row) (map (map JStr) table)
     = Inr (map (map JStr) table)"
  by (induction table) (simp_all add: sanitize_strings)

lemma filteredRows_strings:
  assumes "\<forall>fs \<in> set table. \<exists>s \<in> set fs. s \<noteq> []"
  shows "filteredRows (map (map JStr) table) = map (map JStr) table"
proof -
  have "\<not> all_empty (map JStr fs)" if "fs \<in> set table" for fs
    using assms that by (auto simp: all_empty_def)
  then have "\<forall>row \<in> set (map (map JStr) table). \<not> all_empty row"
    by auto
  then show ?thesis
    by (simp only: filteredRows_all_empty filter_id_conv)
qed

lemma processCsv_strings:
  assumes "\<forall>fs \<in> set table. \<exists>s \<in> set fs. s \<noteq> []"
  shows "processCsv rt (map (map JStr) (hs # table)) =
           Inr \<lparr>headers = map JStr hs, rows = map (map JStr) table\<rparr>"
  by (simp add: processCsv_def toFileData_def sanitizedRows_def filteredRows_strings[OF assms]
      sanitize_string_rows)

text \<open>
  C6, as amended.  Take a dataset with at least one header, whose headers are strings
  without control characters, commas or double quotes, whose cells are scalars with a
  string form free of control characters, and in which every row has a cell with a
  non-empty string form; the string form of null and undefined is the empty string, as the
  encoder writes them.  If its encoding is not the empty text, parsing the encoding on the
  CSV path gives the same headers and the same rows, each cell replaced by its string form.
\<close>

theorem csv_roundtrip:
  assumes "hs \<noteq> []"
    and "\<forall>h \<in> set hs. no_control h \<and> comma \<notin> set h \<and> dquote \<notin> set h"
    and "\<forall>row \<in> set rs. (\<forall>cell \<in> set row. scalar cell \<and> no_control (spec_stringify rt cell))
           \<and> (\<exists>cell \<in> set row. spec_stringify rt cell \<noteq> [])"
    and "convertToCSVLocal rt \<lparr>headers = map JStr hs, rows = rs\<rparr> \<noteq> []"
  shows "parseCsvText rt (convertToCSVLocal rt \<lparr>headers = map JStr hs, rows = rs\<rparr>) =
           Inr \<lparr>headers = map JStr hs, rows = map (map (\<lambda>cell. JStr (spec_stringify rt cell))) rs\<rparr>"
proof -
  let ?table = "map (map (spec_stringify rt)) rs"
  let ?text = "convertToCSVLocal rt \<lparr>headers = map JStr hs, rows = rs\<rparr>"
  have enc: "?text = join [newline] (map (\<lambda>fs. join [comma] (map spec_quote fs)) (hs # ?table))"
    using assms(2) by (intro convertToCSVLocal_table) auto
  have clean: "\<forall>fs \<in> set (hs # ?table). fs \<noteq> [] \<and> (\<forall>s \<in> set fs. newline \<notin> set s \<and> carriage_return \<notin> set s)"
    using assms(1,2,3) no_control_line_breaks by fastforce
  have "csv_tokenize ?text = tokenize_from FieldStart [] [] [] ?text"
    using assms(4) by (simp add: csv_tokenize_def)
  also have "\<dots> = Inr (hs # ?table)"
    unfolding enc using tokenize_from_rows[OF _ clean, of "[]"] by simp
  finally have tok: "csv_tokenize ?text = Inr (hs # ?table)" .
  have kept: "\<forall>fs \<in> set ?table. \<exists>s \<in> set fs. s \<noteq> []"
    using assms(3) by fastforce
  show ?thesis
    unfolding parseCsvText_def tok
    using processCsv_strings[OF kept, of rt hs] by (simp add: comp_def)
qed

theorem csv_roundtrip_witness:
  \<open>parseCsvText example_runtime
     (convertToCSVLocal example_runtime
        \<lparr>headers = [JStr ''name'', JStr ''value''],
         rows = [[JStr ''a,b"c'', JNum 12], [JBool True, JNull]]\<rparr>)
     = Inr \<lparr>headers = [JStr ''name'', JStr ''value''],
            rows = [[JStr ''a,b"c'', JStr ''12''], [JStr ''true'', JStr []]]\<rparr>\<close>
proof -
  let ?hs = "[''name'', ''value'']"
  let ?rs = \<open>[[JStr ''a,b"c'', JNum 12], [JBool True, JNull]] :: nat jsval list list\<close>
  have 1: "?hs \<noteq> []" by simp
  have 2: "\<forall>h \<in> set ?hs. no_control h \<and> comma \<notin> set h \<and> dquote \<notin> set h"
    by (simp add: no_control_def is_control_def comma_def dquote_def)
  have 3: "\<forall>row \<in> set ?rs.
      (\<forall>cell \<in> set row. scalar cell \<and> no_control (spec_stringify example_runtime cell))
      \<and> (\<exists>cell \<in> set row. spec_stringify example_runtime cell \<noteq> [])"
    by (simp add: no_control_def is_control_def spec_stringify_def example_runtime_def digit_def)
  have 4: "convertToCSVLocal example_runtime \<lparr>headers = map JStr ?hs, rows = ?rs\<rparr> \<noteq> []"
    by (simp add: convertToCSVLocal_def join_values_def encodeCell_def example_runtime_def
        Let_def comma_def dquote_def newline_def digit_def)
  from csv_roundtrip[OF 1 2 3 4] show ?thesis
    by (simp add: spec_stringify_def example_runtime_def digit_def)
qed

text \<open>
  C6 as stated fails: a dataset of two rows whose second row holds two empty strings is
  encoded with a last line \<^verbatim>\<open>,\<close>, and the parser drops that all-empty row: one row
  comes back.
\<close>

theorem empty_row_lost_counterexample:
  "convertToCSVLocal example_runtime
     \<lparr>headers = [JStr ''name'', JStr ''value''], rows = [[JStr ''A'', JNum 1], [JStr [], JStr []]]\<rparr>
     = ''name,value\<newline>A,1\<newline>,''
   \<and> parseCsvText example_runtime ''name,value\<newline>A,1\<newline>,''
     = Inr \<lparr>headers = [JStr ''name'', JStr ''value''], rows = [[JStr ''A'', JStr ''1'']]\<rparr>"
  by (simp add: convertToCSVLocal_def join_values_def encodeCell_def example_runtime_def
      parseCsvText_def csv_tokenize_def tokenize_from.simps processCsv_def toFileData_def
      sanitizedRows_def filteredRows_def nonEmptyCell_def sanitizeCell_def
      Let_def comma_def dquote_def newline_def carriage_return_def digit_def)

end
